theory Spec2Isabelle
  imports Main "HOL-Library.Word"
begin

section \<open>Data model\<close>

text \<open>
  The development embeds \<^verbatim>\<open>src/mirror/utils.hpp\<close> (the tree walker
  \<^verbatim>\<open>scanFiles\<close>, the chunked reader \<^verbatim>\<open>processFile\<close>, the verification
  engine \<^verbatim>\<open>verifyDir\<close>) and \<^verbatim>\<open>src/main.cpp\<close> (the mismatch handler
  and \<^verbatim>\<open>main\<close>). Paths and names are C strings, modelled as \<open>string\<close>;
  \<^verbatim>\<open>errno\<close> values are natural numbers.
\<close>

type_synonym errno = nat

text \<open>The value of \<^verbatim>\<open>EACCES\<close> on Linux.\<close>

definition EACCES :: errno where
  "EACCES = 13"

text \<open>\<^verbatim>\<open>MD5_DIGEST_LENGTH\<close> of the MD5 library.\<close>

definition MD5_DIGEST_LENGTH :: nat where
  "MD5_DIGEST_LENGTH = 16"

datatype FileType = FileType_file | FileType_dir

text \<open>
  \<^verbatim>\<open>mirror::FileRecord\<close>. Its declaration (\<^verbatim>\<open>FileDB.hpp\<close>) is not among the
  sources; the fields are the ones \<^verbatim>\<open>utils.hpp\<close> and \<^verbatim>\<open>main.cpp\<close> read:
  \<^verbatim>\<open>type\<close>, \<^verbatim>\<open>fileSize\<close>, \<^verbatim>\<open>lastModifiedTS\<close> (read through
  \<^verbatim>\<open>millis()\<close>) and \<^verbatim>\<open>md5Digest\<close>.
\<close>

record FileRecord =
  type :: FileType
  fileSize :: "64 word"
  lastModifiedTS :: int
  md5Digest :: "char list"

text \<open>
  Everything the code throws. \<^verbatim>\<open>throw errno\<close> is \<open>ThrownErrno\<close>;
  \<open>OpenFailure\<close> and \<open>ReadFailure\<close> are what the \<^verbatim>\<open>[[noreturn]]\<close> helpers
  \<^verbatim>\<open>handleOpenFileError\<close> and \<^verbatim>\<open>handleReadFileError\<close> raise;
  \<open>ConversionFailure\<close> is a failing character-set conversion; \<open>ChunkOpFailure\<close> is
  an exception of a caller-supplied chunk operation; \<open>StoreFailure\<close> is a failing
  store operation; \<open>UndefinedBehaviour\<close> stands for \<^verbatim>\<open>top()\<close> or \<^verbatim>\<open>pop()\<close> on an
  empty \<^verbatim>\<open>std::stack\<close>, \<open>AssertionFailure\<close> for a failing \<^verbatim>\<open>assert\<close>.
\<close>

datatype error =
    OpenFailure errno
  | ReadFailure errno
  | ThrownErrno errno
  | ConversionFailure
  | ChunkOpFailure
  | StoreFailure
  | UndefinedBehaviour
  | AssertionFailure

text \<open>
  One argument of a variadic \<^verbatim>\<open>logError\<close>/\<^verbatim>\<open>logDebug\<close> call: a string
  (literal or C string), a single character, an unsigned number, a timestamp printed
  through \<^verbatim>\<open>ISODateTimeView\<close>, a digest printed through \<^verbatim>\<open>HexEncodedN\<close>, a
  \<^verbatim>\<open>PathKey\<close>, or a \<^verbatim>\<open>FileType\<close>. A log line is the call with its arguments,
  in order; text written to \<^verbatim>\<open>std::cout\<close> and \<^verbatim>\<open>std::cerr\<close> is kept likewise.
\<close>

datatype log_arg =
    Str string
  | Chr char
  | Num "64 word"
  | ISODateTime int
  | Hex "char list"
  | Key string
  | FType FileType

datatype log_entry =
    LogError "log_arg list"
  | LogDebug "log_arg list"
  | StdOut string
  | StdErr string

text \<open>
  A live regular file as the C library presents it at one path: whether
  \<^verbatim>\<open>fopen\<close> succeeds, the bytes \<^verbatim>\<open>fread\<close> delivers before the stream ends,
  how the stream ends (end-of-file, or an I/O error with its \<^verbatim>\<open>errno\<close>), whether
  \<^verbatim>\<open>fclose\<close> succeeds, and the size and modification time of its metadata.
\<close>

record live_file =
  fopen_errno :: "errno option"
  content :: "char list"
  read_errno :: "errno option"
  fclose_errno :: "errno option"
  st_size :: "64 word"
  st_mtime_millis :: int

text \<open>An open \<^verbatim>\<open>std::FILE\<close>: the unread bytes, the pending end, the end-of-file flag.\<close>

record FILE =
  unread :: "char list"
  pending_error :: "errno option"
  eof_flag :: bool
  close_errno :: "errno option"

text \<open>
  Modelled from the spec: \<^verbatim>\<open>mirror::FileDB\<close>, the snapshot store, whose code
  (\<^verbatim>\<open>FileDB.hpp\<close>) is not among the sources. The store holds one entry per known
  directory path and one record per (directory path, file name) pair, keyed by the
  pair.
\<close>

record FileDB =
  db_dirs :: "string list"
  db_files :: "((string \<times> string) \<times> FileRecord) list"

text \<open>
  The world outside the program's own objects: the store, the log, and the number
  of open \<^verbatim>\<open>FILE\<close> and \<^verbatim>\<open>DIR\<close> handles.
\<close>

record world =
  store :: FileDB
  log :: "log_entry list"
  open_files :: nat
  open_dirs :: nat

definition logError :: "log_arg list \<Rightarrow> world \<Rightarrow> world" where
  "logError args w = w\<lparr>log := log w @ [LogError args]\<rparr>"

definition logDebug :: "log_arg list \<Rightarrow> world \<Rightarrow> world" where
  "logDebug args w = w\<lparr>log := log w @ [LogDebug args]\<rparr>"

section \<open>The chunked reader\<close>

text \<open>
  Modelled from the spec: \<^verbatim>\<open>handleOpenFileError\<close> and
  \<^verbatim>\<open>handleReadFileError\<close>, declared \<^verbatim>\<open>[[noreturn]]\<close> in \<^verbatim>\<open>utils.hpp\<close>,
  whose bodies are not among the sources. Failing to open raises an OpenFailure
  carrying the OS error code; a short read that is not end-of-file is a ReadFailure.
\<close>

definition handleOpenFileError :: "errno \<Rightarrow> error" where
  "handleOpenFileError errorCode = OpenFailure errorCode"

text \<open>Modelled from the spec: a short read that is not end-of-file is a ReadFailure
  (\<^verbatim>\<open>handleReadFileError\<close>, body not among the sources).\<close>

definition handleReadFileError :: "errno \<Rightarrow> error" where
  "handleReadFileError errorCode = ReadFailure errorCode"

text \<open>
  \<^verbatim>\<open>openFile\<close>: \<^verbatim>\<open>fopen(path, "r")\<close>; a null result goes to
  \<^verbatim>\<open>handleOpenFileError(errno)\<close>. A stream that is opened counts as an open handle.
\<close>

definition openFile :: "string \<Rightarrow> live_file \<Rightarrow> world \<Rightarrow> (error + FILE) \<times> world" where
  "openFile path lf w =
     (case fopen_errno lf of
        None \<Rightarrow>
          (Inr \<lparr>unread = content lf, pending_error = read_errno lf, eof_flag = False,
                close_errno = fclose_errno lf\<rparr>,
           w\<lparr>open_files := open_files w + 1\<rparr>)
      | Some e \<Rightarrow> (Inl (handleOpenFileError e), w))"

text \<open>
  \<^verbatim>\<open>fread(buf, 1, count, f)\<close>: delivers \<open>count\<close> bytes when that many can be read;
  otherwise delivers what is left and the stream has ended, at end-of-file (the flag
  \<^verbatim>\<open>feof\<close> tests is set) or at an error.
\<close>

definition fread :: "nat \<Rightarrow> FILE \<Rightarrow> char list \<times> FILE" where
  "fread count f =
     (if count \<le> length (unread f)
      then (take count (unread f), f\<lparr>unread := drop count (unread f)\<rparr>)
      else (unread f, f\<lparr>unread := [], eof_flag := (pending_error f = None)\<rparr>))"

definition feof :: "FILE \<Rightarrow> bool" where
  "feof f = eof_flag f"

text \<open>\<^verbatim>\<open>errno\<close> after a short read that is not end-of-file.\<close>

definition errno_of :: "FILE \<Rightarrow> errno" where
  "errno_of f = (case pending_error f of Some e \<Rightarrow> e | None \<Rightarrow> 0)"

text \<open>
  \<^verbatim>\<open>fclose\<close>: the handle is gone whether or not the call succeeds; the result is
  the \<^verbatim>\<open>errno\<close> of a failing call.
\<close>

definition fclose :: "FILE \<Rightarrow> world \<Rightarrow> errno option \<times> world" where
  "fclose f w = (close_errno f, w\<lparr>open_files := open_files w - 1\<rparr>)"

text \<open>
  The \<^verbatim>\<open>for (;;)\<close> loop of \<^verbatim>\<open>processFile\<close>. The chunk operation is a callable
  with its own state \<open>'a\<close>; it may throw.
\<close>

function readLoop ::
  "('a \<Rightarrow> char list \<Rightarrow> error + 'a) \<Rightarrow> FILE \<Rightarrow> 'a \<Rightarrow> error + 'a" where
  "readLoop chunkOp f acc =
     (case fread 4096 f of
        (buf, f') \<Rightarrow>
          if length buf = 4096 then
            (case chunkOp acc buf of
               Inl e \<Rightarrow> Inl e
             | Inr acc' \<Rightarrow> readLoop chunkOp f' acc')
          else if feof f' then chunkOp acc buf
          else Inl (handleReadFileError (errno_of f')))"
  by pat_completeness auto
termination
  by (relation "measure (\<lambda>(chunkOp, f, acc). length (unread f))")
     (auto simp: fread_def split: if_splits)

text \<open>
  \<^verbatim>\<open>processFile\<close>: open, run the loop inside \<^verbatim>\<open>try\<close>; on any exception close
  the file (logging a failing close) and rethrow; otherwise close the file and throw
  \<^verbatim>\<open>errno\<close> when the close fails.
\<close>

definition processFile ::
  "string \<Rightarrow> live_file \<Rightarrow> ('a \<Rightarrow> char list \<Rightarrow> error + 'a) \<Rightarrow> 'a \<Rightarrow> world
     \<Rightarrow> (error + 'a) \<times> world" where
  "processFile path lf chunkOp acc w =
     (case openFile path lf w of
        (Inl e, w1) \<Rightarrow> (Inl e, w1)
      | (Inr f, w1) \<Rightarrow>
          (case readLoop chunkOp f acc of
             Inl e \<Rightarrow>
               (case fclose f w1 of
                  (Some _, w2) \<Rightarrow>
                    (Inl e, logError [Str (''Unable to close the file '' @ [CHR 0x27]),
                                      Str path, Str [CHR 0x27, CHR ''.'']] w2)
                | (None, w2) \<Rightarrow> (Inl e, w2))
           | Inr acc' \<Rightarrow>
               (case fclose f w1 of
                  (Some e, w2) \<Rightarrow> (Inl (ThrownErrno e), w2)
                | (None, w2) \<Rightarrow> (Inr acc', w2))))"

declare readLoop.simps [simp del]

section \<open>The live tree and the walker\<close>

text \<open>
  The live tree as \<^verbatim>\<open>opendir\<close>/\<^verbatim>\<open>readdir\<close> present it: opening a directory
  fails with an \<^verbatim>\<open>errno\<close> or yields its entries in iteration order; an entry has
  its \<^verbatim>\<open>d_name\<close> and, by \<^verbatim>\<open>d_type\<close>, is a regular file, a directory (with what
  opening it will yield; the entries \<^verbatim>\<open>.\<close> and \<^verbatim>\<open>..\<close> are directories too), or
  anything else. The walker reaches a file or directory through the path it builds;
  the tree holds at each entry what that path resolves to.
\<close>

datatype dirent =
    DT_REG string live_file
  | DT_DIR string opendir_result
  | DT_OTHER string
and opendir_result =
    OpenDirError errno
  | OpenDirOk "dirent list"

text \<open>
  The \<^verbatim>\<open>EventHandler\<close> template parameter of \<^verbatim>\<open>scanFiles\<close>: an object with
  state \<open>'h\<close> and the member functions \<^verbatim>\<open>dirStart\<close>, \<^verbatim>\<open>file\<close> and
  \<^verbatim>\<open>dirEnd\<close>.
\<close>

record 'h event_handler =
  on_dirStart :: "string \<Rightarrow> 'h \<Rightarrow> world \<Rightarrow> (error + 'h) \<times> world"
  on_file :: "string \<Rightarrow> string \<Rightarrow> string \<Rightarrow> live_file \<Rightarrow> 'h \<Rightarrow> world \<Rightarrow> (error + 'h) \<times> world"
  on_dirEnd :: "string \<Rightarrow> 'h \<Rightarrow> world \<Rightarrow> (error + 'h) \<times> world"

text \<open>
  \<^verbatim>\<open>std::string p(relDir); if (relDir[0] != '\0') p += '/'; p += name;\<close> as it
  occurs in \<^verbatim>\<open>file\<close>, \<^verbatim>\<open>dirEnd\<close> and \<^verbatim>\<open>scanFiles\<close>.
\<close>

definition relativePathOf :: "string \<Rightarrow> string \<Rightarrow> string" where
  "relativePathOf relDir name = (if relDir \<noteq> [] then relDir @ ''/'' @ name else name)"

text \<open>The test for \<^verbatim>\<open>.\<close> and \<^verbatim>\<open>..\<close> in \<^verbatim>\<open>scanFiles\<close>, character by character.\<close>

fun isDotOrDotDot :: "string \<Rightarrow> bool" where
  "isDotOrDotDot [] = False"
| "isDotOrDotDot (c0 # r) =
     (c0 = CHR ''.'' \<and> (case r of [] \<Rightarrow> True | c1 # r' \<Rightarrow> c1 = CHR ''.'' \<and> r' = []))"

abbreviation apos :: string where
  "apos \<equiv> [CHR 0x27]"

text \<open>
  \<^verbatim>\<open>scanFiles\<close> and its \<^verbatim>\<open>readdir\<close> loop. A directory that cannot be opened
  is skipped when the error is \<^verbatim>\<open>EACCES\<close>; any other error is thrown. An exception
  leaves the directory handle open (\<^verbatim>\<open>closedir\<close> is reached on the normal path
  only).
\<close>

fun scanFiles ::
  "'h event_handler \<Rightarrow> string \<Rightarrow> string \<Rightarrow> opendir_result \<Rightarrow> 'h \<Rightarrow> world
     \<Rightarrow> (error + 'h) \<times> world"
and scanEntries ::
  "'h event_handler \<Rightarrow> string \<Rightarrow> string \<Rightarrow> dirent list \<Rightarrow> 'h \<Rightarrow> world
     \<Rightarrow> (error + 'h) \<times> world" where
  "scanFiles eventHandler rootDir relDir (OpenDirError e) h w =
     (let w1 = logDebug [Str (''Scanning '' @ apos), Str rootDir, Str (apos @ ''...'')] w in
      if e = EACCES
      then (Inr h, logDebug [Str (''No access to '' @ apos), Str rootDir, Chr (CHR 0x27)] w1)
      else (Inl (ThrownErrno e), w1))"
| "scanFiles eventHandler rootDir relDir (OpenDirOk entries) h w =
     (let w1 = logDebug [Str (''Scanning '' @ apos), Str rootDir, Str (apos @ ''...'')] w;
          w2 = w1\<lparr>open_dirs := open_dirs w1 + 1\<rparr> in
      case on_dirStart eventHandler relDir h w2 of
        (Inl err, w3) \<Rightarrow> (Inl err, w3)
      | (Inr h3, w3) \<Rightarrow>
          (case scanEntries eventHandler rootDir relDir entries h3 w3 of
             (Inl err, w4) \<Rightarrow> (Inl err, w4)
           | (Inr h4, w4) \<Rightarrow>
               on_dirEnd eventHandler relDir h4 (w4\<lparr>open_dirs := open_dirs w4 - 1\<rparr>)))"
| "scanEntries eventHandler rootDir relDir [] h w = (Inr h, w)"
| "scanEntries eventHandler rootDir relDir (DT_REG d_name lf # rest) h w =
     (case on_file eventHandler rootDir relDir d_name lf h w of
        (Inl err, w1) \<Rightarrow> (Inl err, w1)
      | (Inr h1, w1) \<Rightarrow> scanEntries eventHandler rootDir relDir rest h1 w1)"
| "scanEntries eventHandler rootDir relDir (DT_DIR name sub # rest) h w =
     (if isDotOrDotDot name then scanEntries eventHandler rootDir relDir rest h w
      else
        (case scanFiles eventHandler (rootDir @ ''/'' @ name) (relativePathOf relDir name) sub h w of
           (Inl err, w1) \<Rightarrow> (Inl err, w1)
         | (Inr h1, w1) \<Rightarrow> scanEntries eventHandler rootDir relDir rest h1 w1))"
| "scanEntries eventHandler rootDir relDir (DT_OTHER d_name # rest) h w =
     scanEntries eventHandler rootDir relDir rest h
       (logDebug [Str (''The file '' @ apos), Str d_name,
                  Str (apos @ '' is neither a directory or a regular file. Skipping it...'')] w)"

section \<open>The store queries and the metadata reader\<close>

text \<open>
  What the program takes from outside this repository: the character-set conversions
  \<^verbatim>\<open>afc::convertToUtf8\<close> and \<^verbatim>\<open>afc::convertFromUtf8\<close> for the system
  character set (\<open>None\<close> when the conversion throws), the MD5 digest of a byte sequence,
  the author's name in the system character set (\<open>None\<close> when
  \<^verbatim>\<open>afc::utf16leToString\<close> throws), whether opening and closing the store fail, and
  the text \<^verbatim>\<open>what()\<close> of an exception that \<^verbatim>\<open>main\<close> can catch (\<open>None\<close> for
  an exception that is neither a \<^verbatim>\<open>std::exception\<close> nor a C string).
\<close>

record env =
  convertToUtf8 :: "string \<Rightarrow> string option"
  convertFromUtf8 :: "string \<Rightarrow> string option"
  md5 :: "char list \<Rightarrow> char list"
  authorName :: "string option"
  db_open_error :: "error option"
  db_close_error :: "error option"
  exception_what :: "error \<Rightarrow> string option"

type_synonym DirSet = "string list"

type_synonym DirFileMap = "(string \<times> FileRecord) list"

text \<open>
  \<^verbatim>\<open>DirFileMap\<close> is a map container from \<^verbatim>\<open>PathKey\<close> to
  \<^verbatim>\<open>FileRecord\<close>; the list gives its entries in iteration order. \<open>dfm_insert\<close> is
  insertion of a key that is not yet present, \<open>map_of\<close> is \<^verbatim>\<open>find\<close>, \<open>dfm_erase\<close>
  is \<^verbatim>\<open>erase\<close> of the entry \<^verbatim>\<open>find\<close> returned.
\<close>

definition dfm_insert :: "string \<Rightarrow> FileRecord \<Rightarrow> DirFileMap \<Rightarrow> DirFileMap" where
  "dfm_insert k v m = (if k \<in> fst ` set m then m else m @ [(k, v)])"

fun dfm_erase :: "string \<Rightarrow> DirFileMap \<Rightarrow> DirFileMap" where
  "dfm_erase k [] = []"
| "dfm_erase k (e # m) = (if fst e = k then m else e # dfm_erase k m)"

text \<open>
  Modelled from the spec: \<^verbatim>\<open>FileDB::getDirs\<close> and \<^verbatim>\<open>FileDB::getFiles\<close>,
  which are not among the sources. \<^verbatim>\<open>getDirs\<close> yields all known directory paths
  (as a set: each path once); \<^verbatim>\<open>getFiles\<close> yields the children of exactly one
  directory, as a map from name to record. Both only read the store.
\<close>

definition getDirs :: "FileDB \<Rightarrow> DirSet" where
  "getDirs db = remdups (db_dirs db)"

text \<open>Modelled from the spec: \<^verbatim>\<open>FileDB::getFiles\<close> (not among the sources), the
  children of exactly one directory.\<close>

definition getFiles :: "FileDB \<Rightarrow> string \<Rightarrow> DirFileMap" where
  "getFiles db dirPath =
     fold (\<lambda>row m. if fst (fst row) = dirPath then dfm_insert (snd (fst row)) (snd row) m else m)
       (db_files db) []"

text \<open>
  Modelled from the spec: \<^verbatim>\<open>mirror::_helper::fillFileRecord\<close>, declared in
  \<^verbatim>\<open>utils.hpp\<close>, whose body is not among the sources. Given a file path, produce
  size, modification time and digest or fail; the file is read through
  \<^verbatim>\<open>processFile\<close>, each chunk fed into an incremental digest accumulator (here:
  the bytes fed so far, finalised by \<open>md5\<close>); size and modification time come from
  the file's metadata, not from the bytes read.
\<close>

definition fillFileRecord ::
  "env \<Rightarrow> string \<Rightarrow> live_file \<Rightarrow> world \<Rightarrow> (error + FileRecord) \<times> world" where
  "fillFileRecord env filePath lf w =
     (case processFile filePath lf (\<lambda>acc buf. Inr (acc @ buf)) [] w of
        (Inl e, w1) \<Rightarrow> (Inl e, w1)
      | (Inr bytes, w1) \<Rightarrow>
          (Inr \<lparr>type = FileType_file, fileSize = st_size lf,
                lastModifiedTS = st_mtime_millis lf, md5Digest = md5 env bytes\<rparr>, w1))"

section \<open>The verification engine\<close>

text \<open>
  The state of the local \<^verbatim>\<open>struct EventHandler\<close> of \<^verbatim>\<open>verifyDir\<close>; its
  \<^verbatim>\<open>dbRef\<close> is the store of the world.
\<close>

record EventHandler =
  dbDirs :: DirSet
  ctxs :: "DirFileMap list"

definition EventHandler_dirStart ::
  "env \<Rightarrow> string \<Rightarrow> EventHandler \<Rightarrow> world \<Rightarrow> (error + EventHandler) \<times> world" where
  "EventHandler_dirStart env relDir eh w =
     (case convertToUtf8 env relDir of
        None \<Rightarrow> (Inl ConversionFailure, w)
      | Some relDirU8 \<Rightarrow>
          (Inr \<lparr>dbDirs = removeAll relDirU8 (dbDirs eh),
                ctxs = getFiles (store w) relDirU8 # ctxs eh\<rparr>, w))"

text \<open>The range-\<^verbatim>\<open>for\<close> over \<^verbatim>\<open>ctxs.top()\<close> in \<^verbatim>\<open>dirEnd\<close>.\<close>

fun dirEndLoop :: "env \<Rightarrow> string \<Rightarrow> DirFileMap \<Rightarrow> world \<Rightarrow> (error + unit) \<times> world" where
  "dirEndLoop env relDir [] w = (Inr (), w)"
| "dirEndLoop env relDir (e # es) w =
     (case convertFromUtf8 env (fst e) of
        None \<Rightarrow> (Inl ConversionFailure, w)
      | Some buf \<Rightarrow>
          dirEndLoop env relDir es
            (logError [Str (''File not found in the file system: '' @ apos),
                       Str (relativePathOf relDir buf), Str (apos @ ''!'')] w))"

definition EventHandler_dirEnd ::
  "env \<Rightarrow> string \<Rightarrow> EventHandler \<Rightarrow> world \<Rightarrow> (error + EventHandler) \<times> world" where
  "EventHandler_dirEnd env relDir eh w =
     (case ctxs eh of
        [] \<Rightarrow> (Inl UndefinedBehaviour, w)
      | topCtx # rest \<Rightarrow>
          (case dirEndLoop env relDir topCtx w of
             (Inl e, w1) \<Rightarrow> (Inl e, w1)
           | (Inr _, w1) \<Rightarrow> (Inr (eh\<lparr>ctxs := rest\<rparr>), w1)))"

text \<open>
  \<^verbatim>\<open>EventHandler::file\<close>. The live file is what \<^verbatim>\<open>absolutePath\<close> resolves to.
  No field of the two records other than size, timestamp and digest is read, and the
  mismatch handler is not called.
\<close>

definition EventHandler_file ::
  "env \<Rightarrow> string \<Rightarrow> string \<Rightarrow> string \<Rightarrow> live_file \<Rightarrow> EventHandler \<Rightarrow> world
     \<Rightarrow> (error + EventHandler) \<times> world" where
  "EventHandler_file env rootDir relDir fileName lf eh w =
     (let w1 = logDebug [Str (''Checking the file '' @ apos), Str fileName, Str (apos @ ''...'')] w;
          absolutePath = rootDir @ ''/'' @ fileName;
          relativePath = relativePathOf relDir fileName
      in
      case convertToUtf8 env fileName of
        None \<Rightarrow> (Inl ConversionFailure, w1)
      | Some key \<Rightarrow>
          (case ctxs eh of
             [] \<Rightarrow> (Inl UndefinedBehaviour, w1)
           | topCtx # rest \<Rightarrow>
               (case map_of topCtx key of
                  None \<Rightarrow>
                    (Inr eh,
                     logError [Str (''New file found in the file system: '' @ apos),
                               Str relativePath, Str (apos @ ''!'')] w1)
                | Some expectedFileRecord \<Rightarrow>
                    (case fillFileRecord env absolutePath lf w1 of
                       (Inl e, w2) \<Rightarrow> (Inl e, w2)
                     | (Inr fileRecord, w2) \<Rightarrow>
                         (let w3 =
                                (if fileSize expectedFileRecord \<noteq> fileSize fileRecord
                                 then logError
                                   [Str (''File size mismatch for the file '' @ apos),
                                    Str relativePath, Str (apos @ ''! DB size: ''),
                                    Num (fileSize expectedFileRecord),
                                    Str '', file system size: '', Num (fileSize fileRecord),
                                    Chr (CHR ''.'')] w2
                                 else w2);
                              w4 =
                                (if lastModifiedTS expectedFileRecord \<noteq> lastModifiedTS fileRecord
                                 then logError
                                   [Str (''File last modified timestamp mismatch for the file ''
                                         @ apos),
                                    Str relativePath, Str (apos @ ''! DB timestamp: ''),
                                    ISODateTime (lastModifiedTS expectedFileRecord),
                                    Str '', file system timestamp: '',
                                    ISODateTime (lastModifiedTS fileRecord), Chr (CHR ''.'')] w3
                                 else w3);
                              w5 =
                                (if take MD5_DIGEST_LENGTH (md5Digest fileRecord)
                                    \<noteq> take MD5_DIGEST_LENGTH (md5Digest expectedFileRecord)
                                 then logError
                                   [Str (''File MD5 digest mismatch for the file '' @ apos),
                                    Str relativePath, Str (apos @ ''! DB MD5: '' @ apos),
                                    Hex (md5Digest expectedFileRecord),
                                    Str (apos @ '', file system MD5: '' @ apos),
                                    Hex (md5Digest fileRecord), Str (apos @ ''.'')] w4
                                 else w4)
                          in (Inr (eh\<lparr>ctxs := dfm_erase key topCtx # rest\<rparr>), w5))))))"

definition verifyHandler :: "env \<Rightarrow> EventHandler event_handler" where
  "verifyHandler env =
     \<lparr>on_dirStart = EventHandler_dirStart env,
      on_file = EventHandler_file env,
      on_dirEnd = EventHandler_dirEnd env\<rparr>"

text \<open>
  The \<^verbatim>\<open>MismatchHandler\<close> template parameter of \<^verbatim>\<open>verifyDir\<close>, with the
  member functions of \<^verbatim>\<open>VerifyDirMismatchHandler\<close> in \<^verbatim>\<open>main.cpp\<close>. A path
  argument is the pair of pointer and size.
\<close>

record MismatchHandler =
  fileNotFound :: "FileType \<Rightarrow> string \<Rightarrow> world \<Rightarrow> world"
  newFileFound :: "FileType \<Rightarrow> string \<Rightarrow> world \<Rightarrow> world"
  checkFileMismatch :: "string \<Rightarrow> FileRecord \<Rightarrow> FileRecord \<Rightarrow> world \<Rightarrow> bool \<times> world"

text \<open>
  \<^verbatim>\<open>mirror::verifyDir\<close> of \<^verbatim>\<open>utils.hpp\<close>: construct the event handler
  (\<^verbatim>\<open>getDirs\<close>), scan, log every directory left in \<^verbatim>\<open>dbDirs\<close>, assert that
  the stack is empty. The parameter \<open>mismatchHandler\<close> is not used in the body.
\<close>

definition verifyDir ::
  "env \<Rightarrow> string \<Rightarrow> opendir_result \<Rightarrow> MismatchHandler \<Rightarrow> world \<Rightarrow> (error + unit) \<times> world" where
  "verifyDir env rootDir tree mismatchHandler w =
     (let eventHandler = \<lparr>dbDirs = getDirs (store w), ctxs = []\<rparr> in
      case scanFiles (verifyHandler env) rootDir [] tree eventHandler w of
        (Inl e, w1) \<Rightarrow> (Inl e, w1)
      | (Inr eh, w1) \<Rightarrow>
          (let w2 = foldl (\<lambda>w' missingDir.
                       logDebug [Str (''DB dir not found in the file system: '' @ apos),
                                 Key missingDir, Str (apos @ ''...'')] w') w1 (dbDirs eh)
           in if ctxs eh = [] then (Inr (), w2) else (Inl AssertionFailure, w2)))"

section \<open>The mismatch handler and the entry point\<close>

abbreviation nl :: string where
  "nl \<equiv> [CHR 0x0A]"

abbreviation tab :: string where
  "tab \<equiv> [CHR 0x09]"

definition VerifyDirMismatchHandler_fileNotFound :: "FileType \<Rightarrow> string \<Rightarrow> world \<Rightarrow> world" where
  "VerifyDirMismatchHandler_fileNotFound t path w =
     logError [FType t, Str ('' not found in the file system: '' @ apos), Str path,
               Str (apos @ ''!'')] w"

definition VerifyDirMismatchHandler_newFileFound :: "FileType \<Rightarrow> string \<Rightarrow> world \<Rightarrow> world" where
  "VerifyDirMismatchHandler_newFileFound t path w =
     logError [Str ''New '', Str (if t = FileType_file then ''file'' else ''dir''),
               Str ('' found in the file system: '' @ apos), Str path, Str (apos @ ''!'')] w"

definition VerifyDirMismatchHandler_checkFileMismatch ::
  "string \<Rightarrow> FileRecord \<Rightarrow> FileRecord \<Rightarrow> world \<Rightarrow> bool \<times> world" where
  "VerifyDirMismatchHandler_checkFileMismatch path expectedFileRecord actualFileRecord w =
     (if type expectedFileRecord \<noteq> type actualFileRecord then
        (False,
         logError [Str (''File type mismatch for the file '' @ apos), Str path,
                   Str (apos @ ''! DB file type: '' @ apos), FType (type expectedFileRecord),
                   Str (apos @ '', file system file type: '' @ apos),
                   FType (type actualFileRecord), Str (apos @ ''.'')] w)
      else if type actualFileRecord = FileType_file then
        (let sizeMismatch = (fileSize expectedFileRecord \<noteq> fileSize actualFileRecord);
             lastModMismatch =
               (lastModifiedTS expectedFileRecord \<noteq> lastModifiedTS actualFileRecord);
             digestMismatch =
               (take MD5_DIGEST_LENGTH (md5Digest actualFileRecord)
                  \<noteq> take MD5_DIGEST_LENGTH (md5Digest expectedFileRecord));
             fullMatch = (\<not> sizeMismatch \<and> \<not> lastModMismatch \<and> \<not> digestMismatch)
         in
         if \<not> fullMatch then
           (let w1 = logError [Str (''Mismatch for the file '' @ apos), Str path,
                               Str (apos @ '':'')] w;
                w2 = (if sizeMismatch
                      then logError [Str (tab @ ''DB size: ''), Num (fileSize expectedFileRecord),
                                     Str (nl @ tab @ ''FS size: ''),
                                     Num (fileSize actualFileRecord)] w1
                      else w1);
                w3 = (if lastModMismatch
                      then logError [Str (tab @ ''DB last modified timestamp: ''),
                                     ISODateTime (lastModifiedTS expectedFileRecord),
                                     Str (nl @ tab @ ''FS last modified timestamp: ''),
                                     ISODateTime (lastModifiedTS actualFileRecord)] w2
                      else w2);
                w4 = (if digestMismatch
                      then logError [Str (tab @ ''DB MD5 digest: '' @ apos),
                                     Hex (md5Digest expectedFileRecord),
                                     Str (apos @ nl @ tab @ ''FS MD5 digest: '' @ apos),
                                     Hex (md5Digest actualFileRecord), Chr (CHR 0x27)] w3
                      else w3)
            in (fullMatch, w4))
         else (fullMatch, w))
      else (True, w))"

definition VerifyDirMismatchHandler :: MismatchHandler where
  "VerifyDirMismatchHandler =
     \<lparr>fileNotFound = VerifyDirMismatchHandler_fileNotFound,
      newFileFound = VerifyDirMismatchHandler_newFileFound,
      checkFileMismatch = VerifyDirMismatchHandler_checkFileMismatch\<rparr>"

text \<open>
  Modelled from the spec: \<^verbatim>\<open>mirror::createDB\<close>, declared in \<^verbatim>\<open>utils.hpp\<close>
  and called by \<^verbatim>\<open>main\<close>, and the store's update operations; their bodies are
  not among the sources. The Snapshot Recorder drives the same walker; entering a
  directory registers its path as a known directory (idempotent upsert); visiting a
  file computes its metadata and upserts the record for (path, name); leaving a
  directory does nothing.
\<close>

definition upsertDirectory :: "string \<Rightarrow> FileDB \<Rightarrow> FileDB" where
  "upsertDirectory dirPath db =
     (if dirPath \<in> set (db_dirs db) then db else db\<lparr>db_dirs := db_dirs db @ [dirPath]\<rparr>)"

text \<open>Modelled from the spec: the store keeps one record per (directory path, file
  name) pair; an upsert replaces the record of the pair or adds it.\<close>

fun upsertRow ::
  "string \<times> string \<Rightarrow> FileRecord \<Rightarrow> ((string \<times> string) \<times> FileRecord) list
     \<Rightarrow> ((string \<times> string) \<times> FileRecord) list" where
  "upsertRow k v [] = [(k, v)]"
| "upsertRow k v (row # rows) = (if fst row = k then (k, v) # rows else row # upsertRow k v rows)"

text \<open>Modelled from the spec: the store's \<^verbatim>\<open>upsertFileRecord\<close> (not among the
  sources).\<close>

definition upsertFileRecord :: "string \<Rightarrow> string \<Rightarrow> FileRecord \<Rightarrow> FileDB \<Rightarrow> FileDB" where
  "upsertFileRecord dirPath name record db =
     db\<lparr>db_files := upsertRow (dirPath, name) record (db_files db)\<rparr>"

text \<open>Modelled from the spec: the Snapshot Recorder, the event handler of
  \<^verbatim>\<open>createDB\<close> (not among the sources).\<close>

definition createHandler :: "env \<Rightarrow> unit event_handler" where
  "createHandler env =
     \<lparr>on_dirStart = (\<lambda>relDir h w.
        case convertToUtf8 env relDir of
          None \<Rightarrow> (Inl ConversionFailure, w)
        | Some relDirU8 \<Rightarrow> (Inr h, w\<lparr>store := upsertDirectory relDirU8 (store w)\<rparr>)),
      on_file = (\<lambda>rootDir relDir fileName lf h w.
        case fillFileRecord env (rootDir @ ''/'' @ fileName) lf w of
          (Inl e, w1) \<Rightarrow> (Inl e, w1)
        | (Inr fileRecord, w1) \<Rightarrow>
            (case (convertToUtf8 env relDir, convertToUtf8 env fileName) of
               (Some relDirU8, Some key) \<Rightarrow>
                 (Inr h, w1\<lparr>store := upsertFileRecord relDirU8 key fileRecord (store w1)\<rparr>)
             | _ \<Rightarrow> (Inl ConversionFailure, w1))),
      on_dirEnd = (\<lambda>relDir h w. (Inr h, w))\<rparr>"

text \<open>Modelled from the spec: \<^verbatim>\<open>mirror::createDB\<close> (body not among the sources)
  walks the tree with the Snapshot Recorder.\<close>

definition createDB :: "env \<Rightarrow> string \<Rightarrow> opendir_result \<Rightarrow> world \<Rightarrow> (error + unit) \<times> world" where
  "createDB env rootDir tree w =
     (case scanFiles (createHandler env) rootDir [] tree () w of
        (Inl e, w1) \<Rightarrow> (Inl e, w1)
      | (Inr _, w1) \<Rightarrow> (Inr (), w1))"

text \<open>\<^verbatim>\<open>main.cpp\<close>: the constants, the tool selector and the two print functions.\<close>

definition programName :: string where
  "programName = ''mirror''"

definition PROGRAM_NAME :: string where
  "PROGRAM_NAME = ''mirror''"

definition PROGRAM_VERSION :: string where
  "PROGRAM_VERSION = ''0.0.1''"

definition options :: "string list" where
  "options = [''tool'', ''help'', ''version'', ''db'']"

datatype tool = tool_undefined | tool_createDB | tool_verifyDir | tool_mergeDir

definition stdOut :: "string \<Rightarrow> world \<Rightarrow> world" where
  "stdOut text w = w\<lparr>log := log w @ [StdOut text]\<rparr>"

definition stdErr :: "string \<Rightarrow> world \<Rightarrow> world" where
  "stdErr text w = w\<lparr>log := log w @ [StdErr text]\<rparr>"

definition printUsage :: "bool \<Rightarrow> string \<Rightarrow> world \<Rightarrow> world" where
  "printUsage success name w =
     (if \<not> success
      then stdOut (''Try '' @ apos @ name @ '' --help'' @ apos @ '' for more information.'' @ nl) w
      else stdOut (''Usage: '' @ name @ '' --tool=[TOOL TO USE] [OPTION]... SOURCE [DEST]'' @ nl
                   @ nl @ ''Report '' @ name @ '' bugs to dzidzitop@vfemail.net'' @ nl) w)"

definition printVersion :: "env \<Rightarrow> world \<Rightarrow> world" where
  "printVersion env w =
     (let author = (case authorName env of Some a \<Rightarrow> a | None \<Rightarrow> ''Dzmitry Liauchuk'') in
      stdOut (PROGRAM_NAME @ '' '' @ PROGRAM_VERSION @ nl
              @ ''Copyright (C) 2017 '' @ author @ ''.'' @ nl
              @ ''License GPLv3+: GNU GPL version 3 or later <http://gnu.org/licenses/gpl.html>.'' @ nl
              @ ''This is free software: you are free to change and redistribute it.'' @ nl
              @ ''There is NO WARRANTY, to the extent permitted by law.'' @ nl
              @ nl
              @ ''Written by '' @ author @ ''.'' @ nl) w)"

text \<open>
  The \<^verbatim>\<open>getopt_long\<close> loop. The list holds, for each call that does not return
  \<^verbatim>\<open>-1\<close>, the returned character, \<^verbatim>\<open>optarg\<close> and \<^verbatim>\<open>optionIndex\<close> (\<open>None\<close>
  for \<^verbatim>\<open>-1\<close>). The result is the exit status of an early \<^verbatim>\<open>return\<close>, or the
  tool, \<^verbatim>\<open>toolDefined\<close> and the store path (\<open>None\<close> while \<^verbatim>\<open>dbDefined\<close> is false).
\<close>

fun parseOptions ::
  "env \<Rightarrow> (char \<times> string \<times> nat option) list \<Rightarrow> tool \<Rightarrow> bool \<Rightarrow> string option \<Rightarrow> world
     \<Rightarrow> (int + tool \<times> bool \<times> string option) \<times> world" where
  "parseOptions env [] t toolDefined dbPath w = (Inr (t, toolDefined, dbPath), w)"
| "parseOptions env ((c, optarg, optionIndex) # rest) t toolDefined dbPath w =
     (if c = CHR ''d'' then parseOptions env rest t toolDefined (Some optarg) w
      else if c = CHR ''h'' then (Inl 0, printUsage True programName w)
      else if c = CHR ''t'' then
        (if optarg = ''create-db'' then parseOptions env rest tool_createDB True dbPath w
         else if optarg = ''verify-dir'' then parseOptions env rest tool_verifyDir True dbPath w
         else if optarg = ''merge-dir'' then parseOptions env rest tool_mergeDir True dbPath w
         else (Inl 1, printUsage False PROGRAM_NAME w))
      else if c = CHR ''v'' then (Inl 0, printVersion env w)
      else if c = CHR ''?'' then (Inl 1, printUsage False programName w)
      else
        (Inl 1,
         stdErr (''Unhandled option: ''
                 @ (case optionIndex of
                      None \<Rightarrow> [CHR ''-'', c]
                    | Some i \<Rightarrow> ''--'' @ (if i < length options then options ! i else []))
                 @ nl) w))"

text \<open>How a run of \<^verbatim>\<open>main\<close> ends: \<^verbatim>\<open>return\<close> of a status, or termination
  (\<^verbatim>\<open>std::terminate\<close> for an exception no handler catches, \<^verbatim>\<open>abort\<close> for a
  failing \<^verbatim>\<open>assert\<close>).\<close>

datatype exit = Exit int | Terminated

text \<open>
  The handlers of the function-try-block of \<^verbatim>\<open>main\<close>: a \<^verbatim>\<open>std::exception\<close>
  and a C string are printed and give status 1; \<^verbatim>\<open>throw errno\<close> throws an
  \<^verbatim>\<open>int\<close>, which no handler catches.
\<close>

definition mainCatch :: "env \<Rightarrow> error \<Rightarrow> world \<Rightarrow> exit \<times> world" where
  "mainCatch env e w =
     (case e of
        ThrownErrno _ \<Rightarrow> (Terminated, w)
      | AssertionFailure \<Rightarrow> (Terminated, w)
      | UndefinedBehaviour \<Rightarrow> (Terminated, w)
      | _ \<Rightarrow>
          (case exception_what env e of
             Some msg \<Rightarrow> (Exit 1, stdErr (msg @ nl) w)
           | None \<Rightarrow> (Terminated, w)))"

text \<open>The \<^verbatim>\<open>switch (t)\<close> inside the \<^verbatim>\<open>try\<close> block of \<^verbatim>\<open>main\<close>.\<close>

definition runTool ::
  "env \<Rightarrow> tool \<Rightarrow> string \<Rightarrow> opendir_result \<Rightarrow> world \<Rightarrow> (error + unit) \<times> world" where
  "runTool env t src tree w =
     (case t of
        tool_createDB \<Rightarrow> createDB env src tree w
      | tool_verifyDir \<Rightarrow> verifyDir env src tree VerifyDirMismatchHandler w
      | tool_mergeDir \<Rightarrow> (Inl AssertionFailure, w)
      | tool_undefined \<Rightarrow> (Inl AssertionFailure, w))"

text \<open>
  \<^verbatim>\<open>main\<close>. \<open>opts\<close> is what \<^verbatim>\<open>getopt_long\<close> returns, \<open>args\<close> is
  \<^verbatim>\<open>argv[optind]\<close> to \<^verbatim>\<open>argv[argc - 1]\<close>, \<open>tree\<close> is what opening the
  directory \<^verbatim>\<open>src\<close> yields.
\<close>

definition main ::
  "env \<Rightarrow> (char \<times> string \<times> nat option) list \<Rightarrow> string list \<Rightarrow> opendir_result \<Rightarrow> world
     \<Rightarrow> exit \<times> world" where
  "main env opts args tree w =
     (case parseOptions env opts tool_undefined False None w of
        (Inl status, w1) \<Rightarrow> (Exit status, w1)
      | (Inr (t, toolDefined, dbPath), w1) \<Rightarrow>
          if args = [] then
            (Exit 1, printUsage False programName (stdErr (''No SOURCE file/directory.'' @ nl) w1))
          else if 2 < length args then
            (Exit 1, printUsage False programName
               (stdErr (''Only SOURCE and DEST files/directories can be specified.'' @ nl) w1))
          else if t = tool_mergeDir \<and> 1 < length args then
            (Exit 1, printUsage False programName
               (stdErr (''SOURCE and DEST files/directories must be specified for merge-dir.''
                        @ nl) w1))
          else if \<not> toolDefined then
            (Exit 1, printUsage False programName (stdErr (''No tool specified.'' @ nl) w1))
          else
            (case dbPath of
               None \<Rightarrow>
                 (Exit 1, printUsage False programName (stdErr (''No DB specified.'' @ nl) w1))
             | Some path \<Rightarrow>
                 (case db_open_error env of
                    Some e \<Rightarrow> mainCatch env e w1
                  | None \<Rightarrow>
                      (case runTool env t (hd args) tree w1 of
                         (Inl e, w2) \<Rightarrow>
                           if e = AssertionFailure \<or> e = UndefinedBehaviour then (Terminated, w2)
                           else
                             (case db_close_error env of
                                Some e' \<Rightarrow> mainCatch env e' w2
                              | None \<Rightarrow> mainCatch env e w2)
                       | (Inr _, w2) \<Rightarrow>
                           (case db_close_error env of
                              Some e \<Rightarrow> mainCatch env e w2
                            | None \<Rightarrow> (Exit 0, w2))))))"

section \<open>Reference notions for the statements\<close>

text \<open>
  The chunks of a byte sequence in the words of the specification: the fixed-size
  chunks of 4096 bytes, in order, and the final partial chunk that remains.
  \<open>feed\<close> passes a list of chunks, in order, to a chunk operation.
\<close>

definition spec_full_chunks :: "char list \<Rightarrow> char list list" where
  "spec_full_chunks xs = map (\<lambda>i. take 4096 (drop (i * 4096) xs)) [0..<length xs div 4096]"

definition spec_final_chunk :: "char list \<Rightarrow> char list" where
  "spec_final_chunk xs = drop (length xs div 4096 * 4096) xs"

fun feed :: "('a \<Rightarrow> char list \<Rightarrow> error + 'a) \<Rightarrow> 'a \<Rightarrow> char list list \<Rightarrow> error + 'a" where
  "feed chunkOp acc [] = Inr acc"
| "feed chunkOp acc (c # cs) =
     (case chunkOp acc c of Inl e \<Rightarrow> Inl e | Inr acc' \<Rightarrow> feed chunkOp acc' cs)"

text \<open>
  The reports of the specification, read off the log: which line of
  \<^verbatim>\<open>EventHandler::file\<close>, \<^verbatim>\<open>EventHandler::dirEnd\<close>, \<^verbatim>\<open>verifyDir\<close> and
  \<^verbatim>\<open>checkFileMismatch\<close> stands for which report, with the path (or directory key)
  it names. \<open>emitted w w'\<close> is what was logged between two worlds.
\<close>

datatype report =
    NewFileFound string
  | FileNotFound string
  | SizeMismatch string
  | TimestampMismatch string
  | DigestMismatch string
  | KindMismatch string
  | DirectoryNotFound string

definition report_of :: "log_entry \<Rightarrow> report option" where
  "report_of e =
     (case e of
        LogError (Str a # Str p # rest) \<Rightarrow>
          (if a = ''New file found in the file system: '' @ apos \<and> rest = [Str (apos @ ''!'')]
           then Some (NewFileFound p)
           else if a = ''File not found in the file system: '' @ apos \<and> rest = [Str (apos @ ''!'')]
           then Some (FileNotFound p)
           else if a = ''File size mismatch for the file '' @ apos then Some (SizeMismatch p)
           else if a = ''File last modified timestamp mismatch for the file '' @ apos
           then Some (TimestampMismatch p)
           else if a = ''File MD5 digest mismatch for the file '' @ apos then Some (DigestMismatch p)
           else if a = ''File type mismatch for the file '' @ apos then Some (KindMismatch p)
           else None)
      | LogDebug [Str a, Key d, Str b] \<Rightarrow>
          (if a = ''DB dir not found in the file system: '' @ apos \<and> b = apos @ ''...''
           then Some (DirectoryNotFound d) else None)
      | _ \<Rightarrow> None)"

definition reports :: "log_entry list \<Rightarrow> report list" where
  "reports entries = List.map_filter report_of entries"

definition emitted :: "world \<Rightarrow> world \<Rightarrow> log_entry list" where
  "emitted w w' = drop (length (log w)) (log w')"

text \<open>
  A relation between worlds, indexed by the relative directory, that every member
  function of an event handler respects; and names for the world after the walker's
  own steps.
\<close>

definition handler_respects ::
  "(string \<Rightarrow> world \<Rightarrow> world \<Rightarrow> bool) \<Rightarrow> 'h event_handler \<Rightarrow> bool" where
  "handler_respects R H \<longleftrightarrow>
     (\<forall>rel h w res w'. on_dirStart H rel h w = (res, w') \<longrightarrow> R rel w w') \<and>
     (\<forall>root rel n lf h w res w'. on_file H root rel n lf h w = (res, w') \<longrightarrow> R rel w w') \<and>
     (\<forall>rel h w res w'. on_dirEnd H rel h w = (res, w') \<longrightarrow> R rel w w')"

abbreviation scanning :: "string \<Rightarrow> world \<Rightarrow> world" where
  "scanning rootDir w \<equiv>
     logDebug [Str (''Scanning '' @ apos), Str rootDir, Str (apos @ ''...'')] w"

abbreviation opened :: "string \<Rightarrow> world \<Rightarrow> world" where
  "opened rootDir w \<equiv> (scanning rootDir w)\<lparr>open_dirs := open_dirs (scanning rootDir w) + 1\<rparr>"

abbreviation closed :: "world \<Rightarrow> world" where
  "closed w \<equiv> w\<lparr>open_dirs := open_dirs w - 1\<rparr>"

abbreviation skipping :: "string \<Rightarrow> world \<Rightarrow> world" where
  "skipping d_name w \<equiv>
     logDebug [Str (''The file '' @ apos), Str d_name,
               Str (apos @ '' is neither a directory or a regular file. Skipping it...'')] w"

text \<open>
  What the walker sees of a directory: the names of its regular files and their keys;
  the relative paths of the directories the walker enters (those that can be opened,
  below directories that can be opened, \<^verbatim>\<open>.\<close> and \<^verbatim>\<open>..\<close> left out), and their
  keys; and the relative paths of all directories the live tree holds, whether or not
  they can be opened.
\<close>

fun fileNames :: "dirent list \<Rightarrow> string list" where
  "fileNames [] = []"
| "fileNames (DT_REG d_name lf # es) = d_name # fileNames es"
| "fileNames (DT_DIR name sub # es) = fileNames es"
| "fileNames (DT_OTHER d_name # es) = fileNames es"

definition fileKeys :: "env \<Rightarrow> dirent list \<Rightarrow> string list" where
  "fileKeys env es = List.map_filter (convertToUtf8 env) (fileNames es)"

fun enteredDirs :: "string \<Rightarrow> opendir_result \<Rightarrow> string list"
and enteredBelow :: "string \<Rightarrow> dirent list \<Rightarrow> string list" where
  "enteredDirs relDir (OpenDirError e) = []"
| "enteredDirs relDir (OpenDirOk entries) = relDir # enteredBelow relDir entries"
| "enteredBelow relDir [] = []"
| "enteredBelow relDir (DT_REG d_name lf # es) = enteredBelow relDir es"
| "enteredBelow relDir (DT_DIR name sub # es) =
     (if isDotOrDotDot name then enteredBelow relDir es
      else enteredDirs (relativePathOf relDir name) sub @ enteredBelow relDir es)"
| "enteredBelow relDir (DT_OTHER d_name # es) = enteredBelow relDir es"

fun liveDirs :: "string \<Rightarrow> opendir_result \<Rightarrow> string list"
and liveBelow :: "string \<Rightarrow> dirent list \<Rightarrow> string list" where
  "liveDirs relDir (OpenDirError e) = [relDir]"
| "liveDirs relDir (OpenDirOk entries) = relDir # liveBelow relDir entries"
| "liveBelow relDir [] = []"
| "liveBelow relDir (DT_REG d_name lf # es) = liveBelow relDir es"
| "liveBelow relDir (DT_DIR name sub # es) =
     (if isDotOrDotDot name then liveBelow relDir es
      else liveDirs (relativePathOf relDir name) sub @ liveBelow relDir es)"
| "liveBelow relDir (DT_OTHER d_name # es) = liveBelow relDir es"

text \<open>Every directory of the live tree can be opened.\<close>

fun allOpened :: "opendir_result \<Rightarrow> bool"
and allOpenedBelow :: "dirent list \<Rightarrow> bool" where
  "allOpened (OpenDirError e) = False"
| "allOpened (OpenDirOk entries) = allOpenedBelow entries"
| "allOpenedBelow [] = True"
| "allOpenedBelow (DT_REG d_name lf # es) = allOpenedBelow es"
| "allOpenedBelow (DT_DIR name sub # es) =
     ((isDotOrDotDot name \<or> allOpened sub) \<and> allOpenedBelow es)"
| "allOpenedBelow (DT_OTHER d_name # es) = allOpenedBelow es"

definition enteredKeys :: "env \<Rightarrow> string list \<Rightarrow> string list" where
  "enteredKeys env dirs = List.map_filter (convertToUtf8 env) dirs"

text \<open>
  A path lies below a relative directory when it starts with that directory and a
  slash (every path lies below the root, whose relative path is empty). A log line is
  under a directory when the report it stands for, if any, names a path below it; the
  line for a missing directory is under no directory.
\<close>

definition below :: "string \<Rightarrow> string \<Rightarrow> bool" where
  "below relDir p \<longleftrightarrow> relDir = [] \<or> take (Suc (length relDir)) p = relDir @ ''/''"

fun reportUnder :: "string \<Rightarrow> report \<Rightarrow> bool" where
  "reportUnder relDir (NewFileFound p) = below relDir p"
| "reportUnder relDir (FileNotFound p) = below relDir p"
| "reportUnder relDir (SizeMismatch p) = below relDir p"
| "reportUnder relDir (TimestampMismatch p) = below relDir p"
| "reportUnder relDir (DigestMismatch p) = below relDir p"
| "reportUnder relDir (KindMismatch p) = below relDir p"
| "reportUnder relDir (DirectoryNotFound d) = False"

definition lineUnder :: "string \<Rightarrow> log_entry \<Rightarrow> bool" where
  "lineUnder relDir e = (case report_of e of None \<Rightarrow> True | Some r \<Rightarrow> reportUnder relDir r)"

definition logsUnder :: "string \<Rightarrow> world \<Rightarrow> world \<Rightarrow> bool" where
  "logsUnder relDir w w' \<longleftrightarrow> (\<exists>L. log w' = log w @ L \<and> (\<forall>e \<in> set L. lineUnder relDir e))"

fun isDirectoryNotFound :: "report \<Rightarrow> bool" where
  "isDirectoryNotFound (DirectoryNotFound d) = True"
| "isDirectoryNotFound _ = False"

text \<open>
  The accounting of one directory. A report is for a directory when the path it names
  is a direct child of that directory: the directory, a slash (none for the root) and
  a name without slash. \<open>newFileFoundIn\<close> and \<open>fileNotFoundIn\<close> count such reports
  in a piece of log; \<open>matchedFiles\<close> counts the live regular files whose key the
  expectation holds. \<open>dirNames\<close> are the subdirectories the walker descends into,
  \<open>liveChildren\<close> all entries of a directory other than \<^verbatim>\<open>.\<close> and \<^verbatim>\<open>..\<close>.
\<close>

definition inDir :: "string \<Rightarrow> string \<Rightarrow> bool" where
  "inDir relDir p \<longleftrightarrow>
     (if relDir = [] then CHR ''/'' \<notin> set p
      else take (Suc (length relDir)) p = relDir @ ''/'' \<and>
           CHR ''/'' \<notin> set (drop (Suc (length relDir)) p))"

fun isNewFileFoundIn :: "string \<Rightarrow> report \<Rightarrow> bool" where
  "isNewFileFoundIn relDir (NewFileFound p) = inDir relDir p"
| "isNewFileFoundIn relDir _ = False"

fun isFileNotFoundIn :: "string \<Rightarrow> report \<Rightarrow> bool" where
  "isFileNotFoundIn relDir (FileNotFound p) = inDir relDir p"
| "isFileNotFoundIn relDir _ = False"

definition newFileFoundIn :: "string \<Rightarrow> log_entry list \<Rightarrow> nat" where
  "newFileFoundIn relDir L = length (filter (isNewFileFoundIn relDir) (reports L))"

definition fileNotFoundIn :: "string \<Rightarrow> log_entry list \<Rightarrow> nat" where
  "fileNotFoundIn relDir L = length (filter (isFileNotFoundIn relDir) (reports L))"

definition matchedFiles :: "env \<Rightarrow> DirFileMap \<Rightarrow> dirent list \<Rightarrow> nat" where
  "matchedFiles env expectation entries =
     length (filter (\<lambda>k. k \<in> fst ` set expectation) (fileKeys env entries))"

fun dirNames :: "dirent list \<Rightarrow> string list" where
  "dirNames [] = []"
| "dirNames (DT_REG d_name lf # es) = dirNames es"
| "dirNames (DT_DIR name sub # es) = (if isDotOrDotDot name then dirNames es else name # dirNames es)"
| "dirNames (DT_OTHER d_name # es) = dirNames es"

fun liveChildren :: "dirent list \<Rightarrow> string list" where
  "liveChildren [] = []"
| "liveChildren (DT_REG d_name lf # es) = d_name # liveChildren es"
| "liveChildren (DT_DIR name sub # es) =
     (if isDotOrDotDot name then liveChildren es else name # liveChildren es)"
| "liveChildren (DT_OTHER d_name # es) = d_name # liveChildren es"

section \<open>Example inputs\<close>

text \<open>
  A stand-in for the digest function, identity conversions, and the scenario of the
  specification: a snapshot of \<^verbatim>\<open>a.txt\<close> with size 10 against a live file of 12
  other bytes; a record of kind directory against a live regular file; a tree with a
  new file, a changed file, a missing file and a missing directory; a mismatch handler
  that leaves a mark whenever it is called.
\<close>

text \<open>A chunk operation that keeps the chunks it is given, and a file of 5000 bytes.\<close>

definition recordChunk :: "char list list \<Rightarrow> char list \<Rightarrow> error + char list list" where
  "recordChunk acc buf = Inr (acc @ [buf])"

definition exampleFile :: "errno option \<Rightarrow> live_file" where
  "exampleFile ending =
     \<lparr>fopen_errno = None, content = replicate 5000 (CHR ''a''), read_errno = ending,
      fclose_errno = None, st_size = 5000, st_mtime_millis = 0\<rparr>"

definition emptyWorld :: world where
  "emptyWorld =
     \<lparr>store = \<lparr>db_dirs = [], db_files = []\<rparr>, log = [], open_files = 0, open_dirs = 0\<rparr>"

definition exampleDigest :: "char list \<Rightarrow> char list" where
  "exampleDigest bytes = take MD5_DIGEST_LENGTH (bytes @ replicate MD5_DIGEST_LENGTH (CHR 0x00))"

definition exampleEnv :: env where
  "exampleEnv =
     \<lparr>convertToUtf8 = Some, convertFromUtf8 = Some, md5 = exampleDigest, authorName = None,
      db_open_error = None, db_close_error = None, exception_what = (\<lambda>e. None)\<rparr>"

definition recorded_a_txt :: FileRecord where
  "recorded_a_txt =
     \<lparr>type = FileType_file, fileSize = 10, lastModifiedTS = 1000,
      md5Digest = exampleDigest ''0123456789''\<rparr>"

definition live_a_txt :: live_file where
  "live_a_txt =
     \<lparr>fopen_errno = None, content = ''hello world!'', read_errno = None, fclose_errno = None,
      st_size = 12, st_mtime_millis = 1000\<rparr>"

definition snapshotWorld :: world where
  "snapshotWorld =
     \<lparr>store = \<lparr>db_dirs = [[]], db_files = [(([], ''a.txt''), recorded_a_txt)]\<rparr>,
      log = [], open_files = 0, open_dirs = 0\<rparr>"

definition recorded_dir_a :: FileRecord where
  "recorded_dir_a =
     \<lparr>type = FileType_dir, fileSize = 0, lastModifiedTS = 0, md5Digest = replicate 16 (CHR 0x00)\<rparr>"

definition live_file_a :: live_file where
  "live_file_a =
     \<lparr>fopen_errno = None, content = ''x'', read_errno = None, fclose_errno = None,
      st_size = 1, st_mtime_millis = 2000\<rparr>"

definition actual_file_a :: FileRecord where
  "actual_file_a =
     \<lparr>type = FileType_file, fileSize = 1, lastModifiedTS = 2000, md5Digest = exampleDigest ''x''\<rparr>"

definition markingHandler :: MismatchHandler where
  "markingHandler =
     \<lparr>fileNotFound = (\<lambda>t path. stdErr ''mismatch handler called''),
      newFileFound = (\<lambda>t path. stdErr ''mismatch handler called''),
      checkFileMismatch = (\<lambda>path expected actual w. (False, stdErr ''mismatch handler called'' w))\<rparr>"

definition mismatchWorld :: world where
  "mismatchWorld =
     \<lparr>store = \<lparr>db_dirs = [[], ''gone''],
               db_files = [(([], ''a.txt''), recorded_a_txt),
                           (([], ''missing.txt''), recorded_a_txt)]\<rparr>,
      log = [], open_files = 0, open_dirs = 0\<rparr>"

definition mismatchTree :: opendir_result where
  "mismatchTree =
     OpenDirOk [DT_DIR ''.'' (OpenDirOk []), DT_DIR ''..'' (OpenDirOk []),
                DT_REG ''new.txt'' live_file_a, DT_REG ''a.txt'' live_a_txt]"

definition deniedTree :: opendir_result where
  "deniedTree =
     OpenDirOk [DT_DIR ''.'' (OpenDirOk []), DT_DIR ''..'' (OpenDirOk []),
                DT_DIR ''a'' (OpenDirError EACCES)]"

definition deniedWorld :: world where
  "deniedWorld =
     \<lparr>store = \<lparr>db_dirs = [[], ''a''], db_files = []\<rparr>, log = [], open_files = 0, open_dirs = 0\<rparr>"

definition emptyTree :: opendir_result where
  "emptyTree = OpenDirOk [DT_DIR ''.'' (OpenDirOk []), DT_DIR ''..'' (OpenDirOk [])]"

definition nestedWorld :: world where
  "nestedWorld =
     \<lparr>store = \<lparr>db_dirs = [[], ''a'', ''a/b''],
               db_files = [((''a'', ''f.txt''), recorded_a_txt)]\<rparr>,
      log = [], open_files = 0, open_dirs = 0\<rparr>"

definition nestedStoreWithoutFiles :: FileDB where
  "nestedStoreWithoutFiles = \<lparr>db_dirs = [[], ''a'', ''a/b''], db_files = []\<rparr>"

definition subdirEntries :: "dirent list" where
  "subdirEntries =
     [DT_DIR ''.'' (OpenDirOk []), DT_DIR ''..'' (OpenDirOk []),
      DT_DIR ''sub'' (OpenDirOk [DT_DIR ''.'' (OpenDirOk []), DT_DIR ''..'' (OpenDirOk [])])]"

definition mismatchEntries :: "dirent list" where
  "mismatchEntries =
     [DT_DIR ''.'' (OpenDirOk []), DT_DIR ''..'' (OpenDirOk []),
      DT_REG ''new.txt'' live_file_a,
      DT_DIR ''sub'' (OpenDirOk [DT_DIR ''.'' (OpenDirOk []), DT_DIR ''..'' (OpenDirOk []),
                                 DT_REG ''inner.txt'' live_file_a]),
      DT_REG ''a.txt'' live_a_txt]"

section \<open>The example environment\<close>

lemma exampleEnv_simps:
  "convertToUtf8 exampleEnv = Some" "convertFromUtf8 exampleEnv = Some"
  "md5 exampleEnv = exampleDigest" "authorName exampleEnv = None"
  "db_open_error exampleEnv = None" "db_close_error exampleEnv = None"
  "exception_what exampleEnv = (\<lambda>e. None)"
  by (simp_all add: exampleEnv_def)

section \<open>The chunked reader: properties\<close>

lemma spec_full_chunks_short: "length xs < 4096 \<Longrightarrow> spec_full_chunks xs = []"
  by (simp add: spec_full_chunks_def)

lemma spec_final_chunk_short: "length xs < 4096 \<Longrightarrow> spec_final_chunk xs = xs"
  by (simp add: spec_final_chunk_def)

lemma div_step: "4096 \<le> (n::nat) \<Longrightarrow> n div 4096 = Suc ((n - 4096) div 4096)"
  by (simp add: le_div_geq)

lemma spec_full_chunks_step:
  assumes "4096 \<le> length xs"
  shows "spec_full_chunks xs = take 4096 xs # spec_full_chunks (drop 4096 xs)"
proof -
  have d: "length xs div 4096 = Suc ((length xs - 4096) div 4096)"
    using assms by (rule div_step)
  show ?thesis
    unfolding spec_full_chunks_def d
    by (simp add: upt_conv_Cons map_Suc_upt [symmetric] del: upt_Suc add: add.commute)
qed

lemma spec_final_chunk_step:
  assumes "4096 \<le> length xs"
  shows "spec_final_chunk xs = spec_final_chunk (drop 4096 xs)"
proof -
  have d: "length xs div 4096 = Suc ((length xs - 4096) div 4096)"
    using assms by (rule div_step)
  show ?thesis
    unfolding spec_final_chunk_def d by (simp add: add.commute)
qed

lemma readLoop_feed:
  "readLoop chunkOp f acc =
     (case feed chunkOp acc (spec_full_chunks (unread f)) of
        Inl e \<Rightarrow> Inl e
      | Inr a \<Rightarrow>
          (case pending_error f of
             Some e \<Rightarrow> Inl (ReadFailure e)
           | None \<Rightarrow> chunkOp a (spec_final_chunk (unread f))))"
proof (induction chunkOp f acc rule: readLoop.induct)
  case (1 chunkOp f acc)
  show ?case
  proof (cases "4096 \<le> length (unread f)")
    case True
    then have fr: "fread 4096 f = (take 4096 (unread f), f\<lparr>unread := drop 4096 (unread f)\<rparr>)"
      by (simp add: fread_def)
    have len: "length (take 4096 (unread f)) = 4096"
      using True by simp
    show ?thesis
    proof (cases "chunkOp acc (take 4096 (unread f))")
      case (Inl e)
      then show ?thesis
        using True fr len
        by (subst readLoop.simps) (simp add: spec_full_chunks_step)
    next
      case (Inr acc')
      have ih: "readLoop chunkOp (f\<lparr>unread := drop 4096 (unread f)\<rparr>) acc' =
        (case feed chunkOp acc' (spec_full_chunks (drop 4096 (unread f))) of
           Inl e \<Rightarrow> Inl e
         | Inr a \<Rightarrow>
             (case pending_error f of
                Some e \<Rightarrow> Inl (ReadFailure e)
              | None \<Rightarrow> chunkOp a (spec_final_chunk (drop 4096 (unread f)))))"
        using "1.IH" [OF fr [symmetric] len Inr]
        by (simp cong: sum.case_cong option.case_cong)
      show ?thesis
        using True fr len Inr ih
        by (subst readLoop.simps)
           (simp add: spec_full_chunks_step spec_final_chunk_step [OF True]
                 cong: sum.case_cong option.case_cong)
    qed
  next
    case False
    then have fr: "fread 4096 f = (unread f, f\<lparr>unread := [], eof_flag := (pending_error f = None)\<rparr>)"
      by (simp add: fread_def)
    from False have short: "length (unread f) < 4096" by simp
    show ?thesis
      using short fr
      by (subst readLoop.simps)
         (auto simp: spec_full_chunks_short spec_final_chunk_short feof_def errno_of_def
               handleReadFileError_def split: option.splits)
  qed
qed

lemma spec_full_chunks_length: "c \<in> set (spec_full_chunks xs) \<Longrightarrow> length c = 4096"
proof -
  assume "c \<in> set (spec_full_chunks xs)"
  then obtain i where i: "i < length xs div 4096" and c: "c = take 4096 (drop (i * 4096) xs)"
    by (auto simp: spec_full_chunks_def)
  from i have "Suc i * 4096 \<le> length xs div 4096 * 4096"
    by (simp del: mult_Suc)
  also have "\<dots> \<le> length xs"
    by simp
  finally show "length c = 4096"
    unfolding c by simp
qed

lemma spec_final_chunk_length: "length (spec_final_chunk xs) < 4096"
proof -
  have "length (spec_final_chunk xs) = length xs mod 4096"
    unfolding spec_final_chunk_def by (simp add: modulo_nat_def)
  then show ?thesis by simp
qed

lemma spec_chunks_concat: "concat (spec_full_chunks xs) @ spec_final_chunk xs = xs"
proof (induction "length xs" arbitrary: xs rule: less_induct)
  case less
  show ?case
  proof (cases "4096 \<le> length xs")
    case True
    then have "length (drop 4096 xs) < length xs" by simp
    then have "concat (spec_full_chunks (drop 4096 xs)) @ spec_final_chunk (drop 4096 xs)
                 = drop 4096 xs"
      by (rule less)
    then show ?thesis
      using True by (simp add: spec_full_chunks_step spec_final_chunk_step [OF True])
  next
    case False
    then show ?thesis
      by (simp add: spec_full_chunks_short spec_final_chunk_short)
  qed
qed

lemma processFile_result:
  "fopen_errno lf = None \<Longrightarrow>
   fst (processFile path lf chunkOp acc w) =
     (case feed chunkOp acc (spec_full_chunks (content lf)) of
        Inl e \<Rightarrow> Inl e
      | Inr a \<Rightarrow>
          (case read_errno lf of
             Some e \<Rightarrow> Inl (ReadFailure e)
           | None \<Rightarrow>
               (case chunkOp a (spec_final_chunk (content lf)) of
                  Inl e \<Rightarrow> Inl e
                | Inr a' \<Rightarrow>
                    (case fclose_errno lf of
                       None \<Rightarrow> Inr a'
                     | Some e \<Rightarrow> Inl (ThrownErrno e)))))"
  by (simp add: processFile_def openFile_def readLoop_feed fclose_def
           split: sum.splits option.splits)

text \<open>
  Claim C7. \<^verbatim>\<open>processFile\<close> consumes the content in fixed chunks of 4096 bytes:
  the chunks handed to the chunk operation are the full 4096-byte chunks of the
  content, in order, and then, at end-of-file, the final partial chunk (shorter than
  4096 bytes, possibly empty); together they are the content. When the stream ends in
  an error instead, the short read is not end-of-file and the result is a
  \<open>ReadFailure\<close> with the \<^verbatim>\<open>errno\<close>, the final partial chunk not being fed. For a
  chunk operation that does not itself raise a \<open>ReadFailure\<close>, the call raises
  \<open>ReadFailure\<close> if and only if the stream ends in an error and every full chunk
  before it was fed successfully, that is, exactly when a short read that is not
  end-of-file occurs.
\<close>

theorem processFile_reads_4096_byte_chunks:
  "(\<forall>c \<in> set (spec_full_chunks (content lf)). length c = 4096) \<and>
   length (spec_final_chunk (content lf)) < 4096 \<and>
   concat (spec_full_chunks (content lf)) @ spec_final_chunk (content lf) = content lf \<and>
   (fopen_errno lf = None \<longrightarrow>
      fst (processFile path lf chunkOp acc w) =
        (case feed chunkOp acc (spec_full_chunks (content lf)) of
           Inl e \<Rightarrow> Inl e
         | Inr a \<Rightarrow>
             (case read_errno lf of
                Some e \<Rightarrow> Inl (ReadFailure e)
              | None \<Rightarrow>
                  (case chunkOp a (spec_final_chunk (content lf)) of
                     Inl e \<Rightarrow> Inl e
                   | Inr a' \<Rightarrow>
                       (case fclose_errno lf of
                          None \<Rightarrow> Inr a'
                        | Some e \<Rightarrow> Inl (ThrownErrno e)))))) \<and>
   (fopen_errno lf = None \<longrightarrow> (\<forall>a c e. chunkOp a c \<noteq> Inl (ReadFailure e)) \<longrightarrow>
      ((\<exists>e. fst (processFile path lf chunkOp acc w) = Inl (ReadFailure e)) \<longleftrightarrow>
       (read_errno lf \<noteq> None \<and>
        (\<exists>a. feed chunkOp acc (spec_full_chunks (content lf)) = Inr a))))"
proof (intro conjI impI ballI)
  fix c assume "c \<in> set (spec_full_chunks (content lf))"
  then show "length c = 4096" by (rule spec_full_chunks_length)
next
  show "length (spec_final_chunk (content lf)) < 4096" by (rule spec_final_chunk_length)
next
  show "concat (spec_full_chunks (content lf)) @ spec_final_chunk (content lf) = content lf"
    by (rule spec_chunks_concat)
next
  assume "fopen_errno lf = None"
  then show "fst (processFile path lf chunkOp acc w) =
        (case feed chunkOp acc (spec_full_chunks (content lf)) of
           Inl e \<Rightarrow> Inl e
         | Inr a \<Rightarrow>
             (case read_errno lf of
                Some e \<Rightarrow> Inl (ReadFailure e)
              | None \<Rightarrow>
                  (case chunkOp a (spec_final_chunk (content lf)) of
                     Inl e \<Rightarrow> Inl e
                   | Inr a' \<Rightarrow>
                       (case fclose_errno lf of
                          None \<Rightarrow> Inr a'
                        | Some e \<Rightarrow> Inl (ThrownErrno e)))))"
    by (rule processFile_result)
next
  assume op: "fopen_errno lf = None" and nrf: "\<forall>a c e. chunkOp a c \<noteq> Inl (ReadFailure e)"
  have feed_nrf: "feed chunkOp a cs \<noteq> Inl (ReadFailure e)" for a cs e
    using nrf by (induction cs arbitrary: a) (auto split: sum.splits)
  show "(\<exists>e. fst (processFile path lf chunkOp acc w) = Inl (ReadFailure e)) \<longleftrightarrow>
       (read_errno lf \<noteq> None \<and>
        (\<exists>a. feed chunkOp acc (spec_full_chunks (content lf)) = Inr a))"
    unfolding processFile_result [OF op]
    using nrf feed_nrf [of acc "spec_full_chunks (content lf)"]
    by (auto split: sum.splits option.splits)
qed

theorem processFile_reads_4096_byte_chunks_witness:
  "fopen_errno (exampleFile None) = None \<and>
   (\<forall>a c e. recordChunk a c \<noteq> Inl (ReadFailure e)) \<and>
   fst (processFile ''f'' (exampleFile None) recordChunk [] emptyWorld) =
     Inr [replicate 4096 (CHR ''a''), replicate 904 (CHR ''a'')] \<and>
   fst (processFile ''f'' (exampleFile (Some 5)) recordChunk [] emptyWorld) =
     Inl (ReadFailure 5)"
  using processFile_reads_4096_byte_chunks
          [of "exampleFile None" "''f''" recordChunk "[]" emptyWorld]
        processFile_reads_4096_byte_chunks
          [of "exampleFile (Some 5)" "''f''" recordChunk "[]" emptyWorld]
  by (simp add: exampleFile_def recordChunk_def spec_full_chunks_def spec_final_chunk_def)

text \<open>
  Claim C8. Whatever \<^verbatim>\<open>processFile\<close> returns (normally, with an open failure, a
  read failure, an exception of the chunk operation, or a failing close), the number
  of open file handles after the call is the number before it: a handle that was
  opened has been released by \<^verbatim>\<open>fclose\<close>.
\<close>

theorem processFile_releases_handle:
  "open_files (snd (processFile path lf chunkOp acc w)) = open_files w"
  by (simp add: processFile_def openFile_def fclose_def logError_def
           split: sum.splits option.splits)

section \<open>The verification engine: visiting one file\<close>

lemma feed_append: "feed (\<lambda>acc buf. Inr (acc @ buf)) acc cs = Inr (acc @ concat cs)"
  by (induction cs arbitrary: acc) auto

lemma processFile_ok:
  assumes "fopen_errno lf = None" "read_errno lf = None" "fclose_errno lf = None"
  shows "processFile path lf (\<lambda>acc buf. Inr (acc @ buf)) [] w = (Inr (content lf), w)"
proof -
  have "readLoop (\<lambda>acc buf. Inr (acc @ buf))
          \<lparr>unread = content lf, pending_error = None, eof_flag = False, close_errno = None\<rparr> []
        = Inr (content lf)"
    by (simp add: readLoop_feed feed_append spec_chunks_concat)
  then show ?thesis
    using assms by (simp add: processFile_def openFile_def fclose_def)
qed

lemma fillFileRecord_ok:
  assumes "fopen_errno lf = None" "read_errno lf = None" "fclose_errno lf = None"
  shows "fillFileRecord env path lf w =
           (Inr \<lparr>type = FileType_file, fileSize = st_size lf,
                 lastModifiedTS = st_mtime_millis lf, md5Digest = md5 env (content lf)\<rparr>, w)"
  using assms by (simp add: fillFileRecord_def processFile_ok)

lemma dfm_erase_keys: "distinct (map fst m) \<Longrightarrow> fst ` set (dfm_erase k m) = fst ` set m - {k}"
  by (induction m) (auto simp: image_iff)

text \<open>
  Claim C1. When the top expectation holds a record of kind file for the key of
  \<open>fileName\<close>, and the live file can be read, has a different size, the same
  modification timestamp and a different digest, then visiting it succeeds, the
  reports it emits are exactly a size mismatch and a digest mismatch for that path
  (no \<open>NewFileFound\<close>), and the entry is erased from the top expectation, which is what
  \<^verbatim>\<open>dirEnd\<close> reports from: no \<open>FileNotFound\<close> for that name can follow.
\<close>

theorem file_size_and_digest_mismatch:
  assumes top: "ctxs eh = topCtx # rest"
    and key: "convertToUtf8 env fileName = Some key"
    and found: "map_of topCtx key = Some expected"
    and kind: "type expected = FileType_file"
    and live: "fopen_errno lf = None" "read_errno lf = None" "fclose_errno lf = None"
    and size: "st_size lf \<noteq> fileSize expected"
    and ts: "st_mtime_millis lf = lastModifiedTS expected"
    and digest: "take MD5_DIGEST_LENGTH (md5 env (content lf))
                   \<noteq> take MD5_DIGEST_LENGTH (md5Digest expected)"
    and dist: "distinct (map fst topCtx)"
  shows "fst (EventHandler_file env rootDir relDir fileName lf eh w)
           = Inr (eh\<lparr>ctxs := dfm_erase key topCtx # rest\<rparr>) \<and>
         reports (emitted w (snd (EventHandler_file env rootDir relDir fileName lf eh w)))
           = [SizeMismatch (relativePathOf relDir fileName),
              DigestMismatch (relativePathOf relDir fileName)] \<and>
         key \<notin> fst ` set (dfm_erase key topCtx)"
  using assms
  by (simp add: EventHandler_file_def fillFileRecord_ok logError_def logDebug_def Let_def
        reports_def emitted_def report_of_def dfm_erase_keys)

lemma getFiles_snapshot: "getFiles (store snapshotWorld) [] = [(''a.txt'', recorded_a_txt)]"
  by (simp add: getFiles_def snapshotWorld_def dfm_insert_def)

theorem file_size_and_digest_mismatch_witness:
  "fst (EventHandler_file exampleEnv ''root'' [] ''a.txt'' live_a_txt
          \<lparr>dbDirs = [], ctxs = [[(''a.txt'', recorded_a_txt)]]\<rparr> snapshotWorld)
     = Inr \<lparr>dbDirs = [], ctxs = [[]]\<rparr> \<and>
   reports (emitted snapshotWorld
      (snd (EventHandler_file exampleEnv ''root'' [] ''a.txt'' live_a_txt
          \<lparr>dbDirs = [], ctxs = [[(''a.txt'', recorded_a_txt)]]\<rparr> snapshotWorld)))
     = [SizeMismatch ''a.txt'', DigestMismatch ''a.txt'']"
  using file_size_and_digest_mismatch
          [of "\<lparr>dbDirs = [], ctxs = [[(''a.txt'', recorded_a_txt)]]\<rparr>"
              "[(''a.txt'', recorded_a_txt)]" "[]" exampleEnv "''a.txt''" "''a.txt''"
              recorded_a_txt live_a_txt "''root''" "[]" snapshotWorld]
  by (simp add: exampleEnv_def recorded_a_txt_def live_a_txt_def exampleDigest_def
        MD5_DIGEST_LENGTH_def relativePathOf_def)

section \<open>The walker and the store\<close>

lemma processFile_store:
  "processFile path lf chunkOp acc w = (r, w') \<Longrightarrow> store w' = store w"
  by (auto simp: processFile_def openFile_def fclose_def logError_def
           split: sum.splits option.splits)

lemma fillFileRecord_store:
  "fillFileRecord env path lf w = (r, w') \<Longrightarrow> store w' = store w"
  by (auto simp: fillFileRecord_def split: prod.splits sum.splits dest: processFile_store)

lemma dirEndLoop_store:
  "dirEndLoop env relDir m w = (r, w') \<Longrightarrow> store w' = store w"
  by (induction m arbitrary: w) (auto simp: logError_def split: option.splits)

lemma EventHandler_dirStart_store:
  "EventHandler_dirStart env relDir eh w = (r, w') \<Longrightarrow> store w' = store w"
  by (auto simp: EventHandler_dirStart_def split: option.splits)

lemma EventHandler_dirEnd_store:
  "EventHandler_dirEnd env relDir eh w = (r, w') \<Longrightarrow> store w' = store w"
  by (auto simp: EventHandler_dirEnd_def split: list.splits prod.splits sum.splits
           dest: dirEndLoop_store)

lemma EventHandler_file_store:
  "EventHandler_file env rootDir relDir fileName lf eh w = (r, w') \<Longrightarrow> store w' = store w"
  by (auto simp: EventHandler_file_def Let_def logError_def logDebug_def
           split: option.splits list.splits prod.splits sum.splits if_splits
           dest!: fillFileRecord_store)

lemma handler_respectsD:
  assumes "handler_respects R H"
  shows "on_dirStart H rel h w = (res, w') \<Longrightarrow> R rel w w'"
    and "on_file H root rel n lf h w = (res, w') \<Longrightarrow> R rel w w'"
    and "on_dirEnd H rel h w = (res, w') \<Longrightarrow> R rel w w'"
  using assms unfolding handler_respects_def by blast+

lemma scanFiles_OkE [consumes 1, case_names dirStartFail entriesFail finished]:
  assumes run: "scanFiles H rootDir relDir (OpenDirOk entries) h w = (res, w')"
  obtains
    (dirStartFail) e where
      "on_dirStart H relDir h (opened rootDir w) = (Inl e, w')" "res = Inl e"
  | (entriesFail) h3 w3 e where
      "on_dirStart H relDir h (opened rootDir w) = (Inr h3, w3)"
      "scanEntries H rootDir relDir entries h3 w3 = (Inl e, w')" "res = Inl e"
  | (finished) h3 w3 h4 w4 where
      "on_dirStart H relDir h (opened rootDir w) = (Inr h3, w3)"
      "scanEntries H rootDir relDir entries h3 w3 = (Inr h4, w4)"
      "on_dirEnd H relDir h4 (closed w4) = (res, w')"
proof -
  obtain r3 w3 where ds3: "on_dirStart H relDir h (opened rootDir w) = (r3, w3)"
    by (cases "on_dirStart H relDir h (opened rootDir w)")
  show thesis
  proof (cases r3)
    case (Inl e)
    with run ds3 have "res = Inl e" "w' = w3" by (simp_all add: Let_def)
    with ds3 Inl show thesis by (intro dirStartFail) simp_all
  next
    case h3: (Inr h3)
    obtain r4 w4 where se: "scanEntries H rootDir relDir entries h3 w3 = (r4, w4)"
      by (cases "scanEntries H rootDir relDir entries h3 w3")
    show thesis
    proof (cases r4)
      case (Inl e)
      with run ds3 h3 se have "res = Inl e" "w' = w4" by (simp_all add: Let_def)
      with ds3 h3 se Inl show thesis by (intro entriesFail) simp_all
    next
      case (Inr h4)
      with run ds3 h3 se have "on_dirEnd H relDir h4 (closed w4) = (res, w')"
        by (simp add: Let_def)
      with ds3 h3 se Inr show thesis by (intro finished) simp_all
    qed
  qed
qed

lemma scanEntries_REG_E [consumes 1, case_names fileFail fileOk]:
  assumes run: "scanEntries H rootDir relDir (DT_REG d_name lf # rest) h w = (res, w')"
  obtains
    (fileFail) e where "on_file H rootDir relDir d_name lf h w = (Inl e, w')" "res = Inl e"
  | (fileOk) h1 w1 where
      "on_file H rootDir relDir d_name lf h w = (Inr h1, w1)"
      "scanEntries H rootDir relDir rest h1 w1 = (res, w')"
proof -
  obtain r1 w1 where f1: "on_file H rootDir relDir d_name lf h w = (r1, w1)"
    by (cases "on_file H rootDir relDir d_name lf h w")
  show thesis
  proof (cases r1)
    case (Inl e)
    with run f1 have "res = Inl e" "w' = w1" by simp_all
    with f1 Inl show thesis by (intro fileFail) simp_all
  next
    case (Inr h1)
    with run f1 have "scanEntries H rootDir relDir rest h1 w1 = (res, w')" by simp
    with f1 Inr show thesis by (intro fileOk) simp_all
  qed
qed

lemma scanEntries_DIR_E [consumes 2, case_names subFail subOk]:
  assumes run: "scanEntries H rootDir relDir (DT_DIR name sub # rest) h w = (res, w')"
    and nd: "\<not> isDotOrDotDot name"
  obtains
    (subFail) e where
      "scanFiles H (rootDir @ ''/'' @ name) (relativePathOf relDir name) sub h w = (Inl e, w')"
      "res = Inl e"
  | (subOk) h1 w1 where
      "scanFiles H (rootDir @ ''/'' @ name) (relativePathOf relDir name) sub h w = (Inr h1, w1)"
      "scanEntries H rootDir relDir rest h1 w1 = (res, w')"
proof -
  obtain r1 w1 where s1:
    "scanFiles H (rootDir @ ''/'' @ name) (relativePathOf relDir name) sub h w = (r1, w1)"
    by (cases "scanFiles H (rootDir @ ''/'' @ name) (relativePathOf relDir name) sub h w")
  show thesis
  proof (cases r1)
    case (Inl e)
    with run nd s1 have "res = Inl e" "w' = w1" by simp_all
    with s1 Inl show thesis by (intro subFail) simp_all
  next
    case (Inr h1)
    with run nd s1 have "scanEntries H rootDir relDir rest h1 w1 = (res, w')" by simp
    with s1 Inr show thesis by (intro subOk) simp_all
  qed
qed

lemma scan_world_rel:
  assumes refl: "\<And>rel w. R rel w w"
    and trans: "\<And>rel a b c. R rel a b \<Longrightarrow> R rel b c \<Longrightarrow> R rel a c"
    and nest: "\<And>rel name a b. R (relativePathOf rel name) a b \<Longrightarrow> R rel a b"
    and dbg: "\<And>rel a b c w. R rel w (logDebug [Str a, Str b, c] w)"
    and od: "\<And>rel w n. R rel w (w\<lparr>open_dirs := n\<rparr>)"
  shows "handler_respects R H \<Longrightarrow> scanFiles H rootDir relDir tree h w = (res, w')
           \<Longrightarrow> R relDir w w'"
    and "handler_respects R H \<Longrightarrow> scanEntries H rootDir relDir entries h w = (res, w')
           \<Longrightarrow> R relDir w w'"
proof (induction H rootDir relDir tree h w and H rootDir relDir entries h w
       arbitrary: res w' and res w' rule: scanFiles_scanEntries.induct)
  case (1 H rootDir relDir e h w)
  then show ?case
    by (auto simp: Let_def split: if_splits intro: dbg trans [OF dbg dbg])
next
  case (2 H rootDir relDir entries h w)
  note ok = "2.prems"(1)
  note ds = handler_respectsD(1) [OF ok] and de = handler_respectsD(3) [OF ok]
  have R02: "R relDir w (opened rootDir w)"
    by (rule trans [OF dbg od])
  from "2.prems"(2) show ?case
  proof (cases rule: scanFiles_OkE)
    case (dirStartFail e)
    then show ?thesis using R02 ds trans by blast
  next
    case (entriesFail h3 w3 e)
    have "R relDir w3 w'"
      by (rule "2.IH" [OF HOL.refl HOL.refl entriesFail(1) [symmetric] HOL.refl ok entriesFail(2)])
    then show ?thesis using R02 ds [OF entriesFail(1)] trans by blast
  next
    case (finished h3 w3 h4 w4)
    have "R relDir w3 w4"
      by (rule "2.IH" [OF HOL.refl HOL.refl finished(1) [symmetric] HOL.refl ok finished(2)])
    moreover have "R relDir w4 w'"
      by (rule trans [OF od de [OF finished(3)]])
    ultimately show ?thesis using R02 ds [OF finished(1)] trans by blast
  qed
next
  case (3 H rootDir relDir h w)
  then show ?case by (simp add: refl)
next
  case (4 H rootDir relDir d_name lf rest h w)
  note ok = "4.prems"(1)
  note fi = handler_respectsD(2) [OF ok]
  from "4.prems"(2) show ?case
  proof (cases rule: scanEntries_REG_E)
    case (fileFail e)
    then show ?thesis using fi by blast
  next
    case (fileOk h1 w1)
    have "R relDir w1 w'"
      by (rule "4.IH" [OF fileOk(1) [symmetric] HOL.refl ok fileOk(2)])
    then show ?thesis using fi [OF fileOk(1)] trans by blast
  qed
next
  case (5 H rootDir relDir name sub rest h w)
  note ok = "5.prems"(1) and run = "5.prems"(2)
  show ?case
  proof (cases "isDotOrDotDot name")
    case True
    then show ?thesis using run "5.IH"(1) [OF True ok] by simp
  next
    case False
    from run False show ?thesis
    proof (cases rule: scanEntries_DIR_E)
      case (subFail e)
      show ?thesis by (rule nest [OF "5.IH"(2) [OF False ok subFail(1)]])
    next
      case (subOk h1 w1)
      have "R relDir w w1"
        by (rule nest [OF "5.IH"(2) [OF False ok subOk(1)]])
      moreover have "R relDir w1 w'"
        by (rule "5.IH"(3) [OF False subOk(1) [symmetric] HOL.refl ok subOk(2)])
      ultimately show ?thesis using trans by blast
    qed
  qed
next
  case (6 H rootDir relDir d_name rest h w)
  from "6.prems"(2) have "scanEntries H rootDir relDir rest h (skipping d_name w) = (res, w')"
    by (simp only: scanEntries.simps)
  then have "R relDir (skipping d_name w) w'"
    by (rule "6.IH" [OF "6.prems"(1)])
  then show ?case using dbg trans by blast
qed

lemma verify_respects_store:
  "handler_respects (\<lambda>_ a b. store b = store a) (verifyHandler env)"
  unfolding handler_respects_def verifyHandler_def
  by (auto dest: EventHandler_dirStart_store EventHandler_file_store EventHandler_dirEnd_store)

lemma verify_scan_store:
  "scanFiles (verifyHandler env) rootDir relDir tree h w = (res, w') \<Longrightarrow> store w' = store w"
  by (rule scan_world_rel(1) [where R = "\<lambda>_ a b. store b = store a", OF _ _ _ _ _ verify_respects_store])
     (auto simp: logDebug_def)
lemma foldl_logDebug_store:
  "store (foldl (\<lambda>w' d. logDebug (f d) w') w ds) = store w"
  by (induction ds arbitrary: w) (auto simp: logDebug_def)

text \<open>
  Claim C10. Whatever \<^verbatim>\<open>verifyDir\<close> returns and whatever it reports, the store
  of the world after the call is the store before it: the engine reaches the store
  through \<^verbatim>\<open>getDirs\<close> and \<^verbatim>\<open>getFiles\<close> only, which read.
\<close>

theorem verifyDir_store_unchanged:
  "store (snd (verifyDir env rootDir tree mismatchHandler w)) = store w"
proof -
  obtain r w1 where s: "scanFiles (verifyHandler env) rootDir [] tree
      \<lparr>dbDirs = getDirs (store w), ctxs = []\<rparr> w = (r, w1)"
    by (cases "scanFiles (verifyHandler env) rootDir [] tree
      \<lparr>dbDirs = getDirs (store w), ctxs = []\<rparr> w")
  have "store w1 = store w" using s by (rule verify_scan_store)
  then show ?thesis
    using s by (cases r) (simp_all add: verifyDir_def Let_def foldl_logDebug_store)
qed

section \<open>The engine state across the walk\<close>

lemma enteredKeys_simps:
  "enteredKeys env [] = []"
  "enteredKeys env (d # ds) =
     (case convertToUtf8 env d of None \<Rightarrow> enteredKeys env ds | Some u \<Rightarrow> u # enteredKeys env ds)"
  "enteredKeys env (ds @ ds') = enteredKeys env ds @ enteredKeys env ds'"
  by (simp_all add: enteredKeys_def List.map_filter_def split: option.splits)

lemma filter_notin_append:
  "filter (\<lambda>d. d \<notin> set (xs @ ys)) zs = filter (\<lambda>d. d \<notin> set ys) (filter (\<lambda>d. d \<notin> set xs) zs)"
  by (induction zs) auto

lemma filter_removeAll_conj:
  "filter P (removeAll x zs) = filter (\<lambda>d. d \<noteq> x \<and> P d) zs"
  by (induction zs) auto

lemma EventHandler_dirStart_Inr:
  "EventHandler_dirStart env relDir eh w = (Inr eh', w') \<Longrightarrow>
   \<exists>u. convertToUtf8 env relDir = Some u \<and> w' = w \<and>
       dbDirs eh' = removeAll u (dbDirs eh) \<and> ctxs eh' = getFiles (store w) u # ctxs eh"
  by (auto simp: EventHandler_dirStart_def split: option.splits)

lemma EventHandler_dirEnd_Inr:
  "EventHandler_dirEnd env relDir eh w = (Inr eh', w') \<Longrightarrow>
   dbDirs eh' = dbDirs eh \<and> ctxs eh' = tl (ctxs eh) \<and> ctxs eh \<noteq> [] \<and>
   dirEndLoop env relDir (hd (ctxs eh)) w = (Inr (), w')"
  by (auto simp: EventHandler_dirEnd_def split: list.splits prod.splits sum.splits)

lemma dfm_erase_absent: "map_of m k = None \<Longrightarrow> dfm_erase k m = m"
  by (induction m) (auto split: if_splits)

lemma EventHandler_file_Inr:
  "EventHandler_file env rootDir relDir fileName lf eh w = (Inr eh', w') \<Longrightarrow>
   \<exists>key topCtx rest. convertToUtf8 env fileName = Some key \<and> ctxs eh = topCtx # rest \<and>
       ctxs eh' = dfm_erase key topCtx # rest \<and> dbDirs eh' = dbDirs eh"
  by (auto simp: EventHandler_file_def Let_def dfm_erase_absent
           split: option.splits list.splits prod.splits sum.splits)

lemma verify_scan_state:
  shows "H = verifyHandler env \<Longrightarrow> scanFiles H rootDir relDir tree eh w = (Inr eh', w') \<Longrightarrow>
           ctxs eh' = ctxs eh \<and>
           dbDirs eh' = filter (\<lambda>d. d \<notin> set (enteredKeys env (enteredDirs relDir tree))) (dbDirs eh)"
    and "H = verifyHandler env \<Longrightarrow> scanEntries H rootDir relDir entries eh w = (Inr eh', w') \<Longrightarrow>
           ctxs eh = topCtx # rest \<Longrightarrow>
           ctxs eh' = fold dfm_erase (fileKeys env entries) topCtx # rest \<and>
           dbDirs eh' = filter (\<lambda>d. d \<notin> set (enteredKeys env (enteredBelow relDir entries))) (dbDirs eh)"
proof (induction H rootDir relDir tree eh w and H rootDir relDir entries eh w
       arbitrary: eh' w' and eh' w' topCtx rest rule: scanFiles_scanEntries.induct)
  case (1 H rootDir relDir e h w)
  then show ?case
    by (auto simp: Let_def enteredKeys_simps split: if_splits)
next
  case (2 H rootDir relDir entries h w)
  note H = "2.prems"(1)
  from "2.prems"(2) show ?case
  proof (cases rule: scanFiles_OkE)
    case (finished h3 w3 h4 w4)
    from finished(1) obtain u where u: "convertToUtf8 env relDir = Some u"
      and d3: "dbDirs h3 = removeAll u (dbDirs h)"
      and c3: "ctxs h3 = getFiles (store (opened rootDir w)) u # ctxs h"
      using EventHandler_dirStart_Inr [of env relDir h "opened rootDir w" h3 w3]
      by (auto simp: H verifyHandler_def)
    have s4: "ctxs h4 = fold dfm_erase (fileKeys env entries) (getFiles (store (opened rootDir w)) u) # ctxs h \<and>
           dbDirs h4 = filter (\<lambda>d. d \<notin> set (enteredKeys env (enteredBelow relDir entries))) (dbDirs h3)"
      by (rule "2.IH" [OF HOL.refl HOL.refl finished(1) [symmetric] HOL.refl H finished(2) c3])
    from finished(3) have e: "dbDirs eh' = dbDirs h4" "ctxs eh' = tl (ctxs h4)"
      using EventHandler_dirEnd_Inr [of env relDir h4 "closed w4" eh' w']
      by (auto simp: H verifyHandler_def)
    show ?thesis
      using e s4 d3 u by (simp add: enteredKeys_simps filter_removeAll_conj)
  qed simp_all
next
  case (3 H rootDir relDir h w)
  then show ?case by (simp add: fileKeys_def enteredKeys_simps)
next
  case (4 H rootDir relDir d_name lf rest' h w)
  note H = "4.prems"(1) and top = "4.prems"(3)
  from "4.prems"(2) show ?case
  proof (cases rule: scanEntries_REG_E)
    case (fileOk h1 w1)
    from fileOk(1) obtain key where key: "convertToUtf8 env d_name = Some key"
      and c1: "ctxs h1 = dfm_erase key topCtx # rest" and d1: "dbDirs h1 = dbDirs h"
      using EventHandler_file_Inr [of env rootDir relDir d_name lf h w h1 w1] top
      by (auto simp: H verifyHandler_def)
    have "ctxs eh' = fold dfm_erase (fileKeys env rest') (dfm_erase key topCtx) # rest \<and>
          dbDirs eh' = filter (\<lambda>d. d \<notin> set (enteredKeys env (enteredBelow relDir rest'))) (dbDirs h1)"
      by (rule "4.IH" [OF fileOk(1) [symmetric] HOL.refl H fileOk(2) c1])
    then show ?thesis
      using key d1 by (simp add: fileKeys_def)
  qed simp
next
  case (5 H rootDir relDir name sub rest' h w)
  note H = "5.prems"(1) and run = "5.prems"(2) and top = "5.prems"(3)
  show ?case
  proof (cases "isDotOrDotDot name")
    case True
    then show ?thesis
      using run "5.IH"(1) [OF True H _ top] by (simp add: fileKeys_def)
  next
    case False
    from run False show ?thesis
    proof (cases rule: scanEntries_DIR_E)
      case (subOk h1 w1)
      have s1: "ctxs h1 = ctxs h \<and>
         dbDirs h1 = filter (\<lambda>d. d \<notin> set (enteredKeys env (enteredDirs (relativePathOf relDir name) sub))) (dbDirs h)"
        by (rule "5.IH"(2) [OF False H subOk(1)])
      then have c1: "ctxs h1 = topCtx # rest" using top by simp
      have "ctxs eh' = fold dfm_erase (fileKeys env rest') topCtx # rest \<and>
          dbDirs eh' = filter (\<lambda>d. d \<notin> set (enteredKeys env (enteredBelow relDir rest'))) (dbDirs h1)"
        by (rule "5.IH"(3) [OF False subOk(1) [symmetric] HOL.refl H subOk(2) c1])
      then show ?thesis
        using s1 False by (simp add: fileKeys_def enteredKeys_simps filter_notin_append)
    qed simp
  qed
next
  case (6 H rootDir relDir d_name rest' h w)
  from "6.prems"(2) have "scanEntries H rootDir relDir rest' h (skipping d_name w) = (Inr eh', w')"
    by (simp only: scanEntries.simps)
  from "6.IH" [OF "6.prems"(1) this "6.prems"(3)] show ?case
    by (simp add: fileKeys_def)
qed

section \<open>Reports under a directory; missing directories\<close>

lemma logsUnder_refl: "logsUnder rel w w"
  by (simp add: logsUnder_def)

lemma logsUnder_trans: "logsUnder rel a b \<Longrightarrow> logsUnder rel b c \<Longrightarrow> logsUnder rel a c"
  unfolding logsUnder_def by fastforce

lemma below_nest: "below (relativePathOf rel name) p \<Longrightarrow> below rel p"
proof (cases "rel = []")
  case True
  then show ?thesis by (simp add: below_def)
next
  case False
  assume "below (relativePathOf rel name) p"
  then have "take (Suc (length (rel @ ''/'' @ name))) p = (rel @ ''/'' @ name) @ ''/''"
    using False by (simp add: below_def relativePathOf_def)
  then have "take (Suc (length rel)) (take (Suc (length (rel @ ''/'' @ name))) p)
               = take (Suc (length rel)) ((rel @ ''/'' @ name) @ ''/'')"
    by simp
  then show ?thesis
    by (simp add: below_def min_def)
qed

lemma lineUnder_nest: "lineUnder (relativePathOf rel name) e \<Longrightarrow> lineUnder rel e"
proof -
  have "reportUnder (relativePathOf rel name) r \<Longrightarrow> reportUnder rel r" for r
    by (cases r) (auto dest: below_nest)
  then show "lineUnder (relativePathOf rel name) e \<Longrightarrow> lineUnder rel e"
    by (auto simp: lineUnder_def split: option.splits)
qed

lemma logsUnder_nest: "logsUnder (relativePathOf rel name) a b \<Longrightarrow> logsUnder rel a b"
  unfolding logsUnder_def using lineUnder_nest by blast

lemma logsUnder_logDebug: "logsUnder rel w (logDebug [Str a, Str b, c] w)"
  by (simp add: logsUnder_def logDebug_def lineUnder_def report_of_def)

lemma logsUnder_open_dirs: "logsUnder rel w (w\<lparr>open_dirs := n\<rparr>)"
  by (simp add: logsUnder_def)

lemma below_relativePathOf: "below rel (relativePathOf rel name)"
  by (simp add: below_def relativePathOf_def)

lemma processFile_log:
  "processFile path lf chunkOp acc w = (r, w') \<Longrightarrow>
     (\<exists>L. log w' = log w @ L \<and> (\<forall>e \<in> set L. report_of e = None)) \<and>
     (\<forall>x. r = Inr x \<longrightarrow> log w' = log w)"
  by (auto simp: processFile_def openFile_def fclose_def logError_def report_of_def
           split: sum.splits option.splits)

lemma fillFileRecord_log:
  "fillFileRecord env path lf w = (r, w') \<Longrightarrow>
     (\<exists>L. log w' = log w @ L \<and> (\<forall>e \<in> set L. report_of e = None)) \<and>
     (\<forall>x. r = Inr x \<longrightarrow> log w' = log w)"
  by (auto simp: fillFileRecord_def split: prod.splits sum.splits dest!: processFile_log)

lemma lineUnder_simps:
  "lineUnder rel (LogDebug [Str a, Str b, c])"
  "report_of e = None \<Longrightarrow> lineUnder rel e"
  "lineUnder rel (LogError [Str (''New file found in the file system: '' @ apos),
      Str (relativePathOf rel n), Str (apos @ ''!'')])"
  "lineUnder rel (LogError [Str (''File not found in the file system: '' @ apos),
      Str (relativePathOf rel n), Str (apos @ ''!'')])"
  "lineUnder rel (LogError (Str (''File size mismatch for the file '' @ apos)
      # Str (relativePathOf rel n) # args))"
  "lineUnder rel (LogError (Str (''File last modified timestamp mismatch for the file '' @ apos)
      # Str (relativePathOf rel n) # args))"
  "lineUnder rel (LogError (Str (''File MD5 digest mismatch for the file '' @ apos)
      # Str (relativePathOf rel n) # args))"
  by (simp_all add: lineUnder_def report_of_def below_relativePathOf)

lemma EventHandler_file_logsUnder:
  assumes "EventHandler_file env rootDir relDir fileName lf eh w = (r, w')"
  shows "logsUnder relDir w w'"
proof -
  let ?w1 = "logDebug [Str (''Checking the file '' @ apos), Str fileName, Str (apos @ ''...'')] w"
  have w1: "logsUnder relDir w ?w1"
    by (rule logsUnder_logDebug)
  have fill: "logsUnder relDir ?w1 w2" if "fillFileRecord env p lf ?w1 = (r2, w2)" for p r2 w2
    using fillFileRecord_log [OF that] unfolding logsUnder_def
    by (auto simp: lineUnder_simps(2))
  have err: "logsUnder relDir a (if c then logError (Str m # Str (relativePathOf relDir fileName) # args) a else a)"
    if "lineUnder relDir (LogError (Str m # Str (relativePathOf relDir fileName) # args))"
    for a c m args
    using that by (simp add: logsUnder_def logError_def)
  show ?thesis
  proof (cases "convertToUtf8 env fileName")
    case None
    then show ?thesis using assms w1 by (simp add: EventHandler_file_def Let_def)
  next
    case (Some key)
    show ?thesis
    proof (cases "ctxs eh")
      case Nil
      then show ?thesis using assms w1 Some by (simp add: EventHandler_file_def Let_def)
    next
      case (Cons topCtx rest)
      show ?thesis
      proof (cases "map_of topCtx key")
        case None
        have "logsUnder relDir ?w1
                (logError [Str (''New file found in the file system: '' @ apos),
                           Str (relativePathOf relDir fileName), Str (apos @ ''!'')] ?w1)"
          using lineUnder_simps(3) [of relDir fileName]
          by (simp add: logsUnder_def logError_def)
        then show ?thesis
          using assms Some Cons None logsUnder_trans [OF w1]
          by (simp add: EventHandler_file_def Let_def)
      next
        case expected: (Some expected)
        obtain r2 w2 where f: "fillFileRecord env (rootDir @ ''/'' @ fileName) lf ?w1 = (r2, w2)"
          by (cases "fillFileRecord env (rootDir @ ''/'' @ fileName) lf ?w1")
        have w2: "logsUnder relDir w w2"
          by (rule logsUnder_trans [OF w1 fill [OF f]])
        show ?thesis
        proof (cases r2)
          case (Inl e)
          then show ?thesis
            using assms Some Cons expected f w2 by (simp add: EventHandler_file_def Let_def)
        next
          case (Inr fileRecord)
          let ?p = "relativePathOf relDir fileName"
          let ?w3 = "(if fileSize expected \<noteq> fileSize fileRecord
                      then logError (Str (''File size mismatch for the file '' @ apos) # Str ?p
                              # [Str (apos @ ''! DB size: ''), Num (fileSize expected),
                                 Str '', file system size: '', Num (fileSize fileRecord),
                                 Chr (CHR ''.'')]) w2
                      else w2)"
          let ?w4 = "(if lastModifiedTS expected \<noteq> lastModifiedTS fileRecord
                      then logError (Str (''File last modified timestamp mismatch for the file ''
                                          @ apos) # Str ?p
                              # [Str (apos @ ''! DB timestamp: ''),
                                 ISODateTime (lastModifiedTS expected),
                                 Str '', file system timestamp: '',
                                 ISODateTime (lastModifiedTS fileRecord), Chr (CHR ''.'')]) ?w3
                      else ?w3)"
          let ?w5 = "(if take MD5_DIGEST_LENGTH (md5Digest fileRecord)
                         \<noteq> take MD5_DIGEST_LENGTH (md5Digest expected)
                      then logError (Str (''File MD5 digest mismatch for the file '' @ apos) # Str ?p
                              # [Str (apos @ ''! DB MD5: '' @ apos), Hex (md5Digest expected),
                                 Str (apos @ '', file system MD5: '' @ apos),
                                 Hex (md5Digest fileRecord), Str (apos @ ''.'')]) ?w4
                      else ?w4)"
          have "logsUnder relDir w2 ?w3" by (rule err [OF lineUnder_simps(5)])
          moreover have "logsUnder relDir ?w3 ?w4" by (rule err [OF lineUnder_simps(6)])
          moreover have "logsUnder relDir ?w4 ?w5" by (rule err [OF lineUnder_simps(7)])
          ultimately have "logsUnder relDir w ?w5"
            using w2 logsUnder_trans by blast
          moreover have "w' = ?w5"
            using assms Some Cons expected f Inr by (simp add: EventHandler_file_def Let_def)
          ultimately show ?thesis by simp
        qed
      qed
    qed
  qed
qed

lemma dirEndLoop_logsUnder:
  "dirEndLoop env relDir m w = (r, w') \<Longrightarrow> logsUnder relDir w w'"
proof (induction m arbitrary: w)
  case Nil
  then show ?case by (simp add: logsUnder_refl)
next
  case (Cons e es)
  show ?case
  proof (cases "convertFromUtf8 env (fst e)")
    case None
    then show ?thesis using Cons.prems by (simp add: logsUnder_refl)
  next
    case (Some buf)
    let ?w1 = "logError [Str (''File not found in the file system: '' @ apos),
                         Str (relativePathOf relDir buf), Str (apos @ ''!'')] w"
    have "logsUnder relDir w ?w1"
      using lineUnder_simps(4) [of relDir buf] by (simp add: logsUnder_def logError_def)
    moreover have "logsUnder relDir ?w1 w'"
      using Cons.prems Some by (intro Cons.IH) simp
    ultimately show ?thesis by (rule logsUnder_trans)
  qed
qed

lemma verify_respects_logsUnder: "handler_respects logsUnder (verifyHandler env)"
  unfolding handler_respects_def verifyHandler_def
  by (auto simp: EventHandler_dirStart_def EventHandler_dirEnd_def logsUnder_refl
           split: option.splits list.splits prod.splits sum.splits
           intro: EventHandler_file_logsUnder dirEndLoop_logsUnder)

lemma verify_scan_logsUnder:
  "scanFiles (verifyHandler env) rootDir relDir tree h w = (res, w') \<Longrightarrow> logsUnder relDir w w'"
  by (rule scan_world_rel(1) [where R = logsUnder, OF _ _ _ _ _ verify_respects_logsUnder])
     (auto intro: logsUnder_refl logsUnder_trans logsUnder_nest logsUnder_logDebug
                  logsUnder_open_dirs)

lemma entered_subset_live:
  "set (enteredDirs relDir tree) \<subseteq> set (liveDirs relDir tree)"
  "set (enteredBelow relDir entries) \<subseteq> set (liveBelow relDir entries)"
  by (induction relDir tree and relDir entries rule: enteredDirs_enteredBelow.induct) auto

lemma entered_eq_live:
  "allOpened tree \<Longrightarrow> enteredDirs relDir tree = liveDirs relDir tree"
  "allOpenedBelow entries \<Longrightarrow> enteredBelow relDir entries = liveBelow relDir entries"
  by (induction relDir tree and relDir entries rule: enteredDirs_enteredBelow.induct) auto

text \<open>
  Claim C6, as stated, fails: a live directory that exists but cannot be opened
  (access denied) is skipped by the walker, so its path stays in the set.
\<close>

theorem dbDirs_after_walk_counterexample:
  "fst (scanFiles (verifyHandler exampleEnv) ''root'' [] deniedTree
          \<lparr>dbDirs = getDirs (store deniedWorld), ctxs = []\<rparr> deniedWorld)
     = Inr \<lparr>dbDirs = [''a''], ctxs = []\<rparr> \<and>
   ''a'' \<in> set (liveDirs [] deniedTree)"
  by (simp add: deniedTree_def deniedWorld_def getDirs_def getFiles_def verifyHandler_def
        EventHandler_dirStart_def EventHandler_dirEnd_def exampleEnv_simps relativePathOf_def
        logDebug_def Let_def)

text \<open>
  Claim C6, amended. After a walk that completes, the directory set is the set at the
  start without the keys of the directories the walker entered: a path is removed if
  and only if the walker enters the live directory with that key. The directories
  entered are live directories; a live directory that cannot be opened with
  \<^verbatim>\<open>EACCES\<close>, or that lies below one, is not entered; when every directory of the
  tree can be opened, the directories entered are all the live directories.
\<close>

theorem dbDirs_after_walk:
  assumes "scanFiles (verifyHandler env) rootDir relDir tree eh w = (Inr eh', w')"
  shows "dbDirs eh' = filter (\<lambda>d. d \<notin> set (enteredKeys env (enteredDirs relDir tree))) (dbDirs eh) \<and>
         set (enteredDirs relDir tree) \<subseteq> set (liveDirs relDir tree) \<and>
         (allOpened tree \<longrightarrow> enteredDirs relDir tree = liveDirs relDir tree)"
  using verify_scan_state(1) [OF HOL.refl assms] entered_subset_live(1) entered_eq_live(1)
  by blast

theorem dbDirs_after_walk_witness:
  "fst (scanFiles (verifyHandler exampleEnv) ''root'' [] deniedTree
          \<lparr>dbDirs = [[], ''a''], ctxs = []\<rparr> deniedWorld)
     = Inr \<lparr>dbDirs = [''a''], ctxs = []\<rparr> \<and>
   [''a''] = filter (\<lambda>d. d \<notin> set (enteredKeys exampleEnv (enteredDirs [] deniedTree))) [[], ''a''] \<and>
   fst (scanFiles (verifyHandler exampleEnv) ''root'' [] emptyTree
          \<lparr>dbDirs = [[], ''a''], ctxs = []\<rparr> deniedWorld)
     = Inr \<lparr>dbDirs = [''a''], ctxs = []\<rparr> \<and>
   allOpened emptyTree \<and> enteredDirs [] emptyTree = liveDirs [] emptyTree"
  using dbDirs_after_walk
          [of exampleEnv "''root''" "[]" deniedTree "\<lparr>dbDirs = [[], ''a''], ctxs = []\<rparr>" deniedWorld
              "\<lparr>dbDirs = [''a''], ctxs = []\<rparr>"
              "snd (scanFiles (verifyHandler exampleEnv) ''root'' [] deniedTree
                     \<lparr>dbDirs = [[], ''a''], ctxs = []\<rparr> deniedWorld)"]
        dbDirs_after_walk
          [of exampleEnv "''root''" "[]" emptyTree "\<lparr>dbDirs = [[], ''a''], ctxs = []\<rparr>" deniedWorld
              "\<lparr>dbDirs = [''a''], ctxs = []\<rparr>"
              "snd (scanFiles (verifyHandler exampleEnv) ''root'' [] emptyTree
                     \<lparr>dbDirs = [[], ''a''], ctxs = []\<rparr> deniedWorld)"]
  by (simp add: deniedTree_def emptyTree_def deniedWorld_def getFiles_def verifyHandler_def
        EventHandler_dirStart_def EventHandler_dirEnd_def exampleEnv_simps relativePathOf_def
        logDebug_def Let_def enteredKeys_simps)

lemma reports_append: "reports (A @ B) = reports A @ reports B"
  by (simp add: reports_def List.map_filter_def)

lemma reports_Cons:
  "reports (e # B) = (case report_of e of None \<Rightarrow> reports B | Some r \<Rightarrow> r # reports B)"
  by (simp add: reports_def List.map_filter_def split: option.splits)

lemma reports_Nil: "reports [] = []"
  by (simp add: reports_def List.map_filter_def)

lemma foldl_logDebug_log:
  "log (foldl (\<lambda>w' d. logDebug (f d) w') w ds) = log w @ map (\<lambda>d. LogDebug (f d)) ds"
  by (induction ds arbitrary: w) (auto simp: logDebug_def)

lemma reports_missing_dirs:
  "reports (map (\<lambda>d. LogDebug [Str (''DB dir not found in the file system: '' @ apos), Key d,
                                Str (apos @ ''...'')]) ds) = map DirectoryNotFound ds"
  by (induction ds) (simp_all add: reports_Nil reports_Cons report_of_def)

lemma lineUnder_no_DirectoryNotFound:
  "\<forall>e \<in> set L. lineUnder rel e \<Longrightarrow> filter isDirectoryNotFound (reports L) = []"
proof (induction L)
  case Nil
  then show ?case by (simp add: reports_Nil)
next
  case (Cons e L)
  then have "lineUnder rel e" by simp
  then have "case report_of e of None \<Rightarrow> True | Some r \<Rightarrow> \<not> isDirectoryNotFound r"
    by (auto simp: lineUnder_def split: option.splits elim: isDirectoryNotFound.elims)
  then show ?case
    using Cons by (auto simp: reports_Cons split: option.splits)
qed

lemma emitted_append: "log w' = log w @ L \<Longrightarrow> emitted w w' = L"
  by (simp add: emitted_def)

lemma directory_not_found_reports:
  assumes "verifyDir env rootDir tree mh w = (Inr (), w')"
  shows "filter isDirectoryNotFound (reports (emitted w w')) =
           map DirectoryNotFound
             (filter (\<lambda>d. d \<notin> set (enteredKeys env (enteredDirs [] tree))) (getDirs (store w)))"
proof -
  let ?eh0 = "\<lparr>dbDirs = getDirs (store w), ctxs = []\<rparr>"
  obtain r w1 where s: "scanFiles (verifyHandler env) rootDir [] tree ?eh0 w = (r, w1)"
    by (cases "scanFiles (verifyHandler env) rootDir [] tree ?eh0 w")
  from assms s obtain eh where r: "r = Inr eh"
    by (cases r) (simp_all add: verifyDir_def Let_def)
  let ?line = "\<lambda>d. LogDebug [Str (''DB dir not found in the file system: '' @ apos), Key d,
                              Str (apos @ ''...'')]"
  from assms s r have w': "log w' = log w1 @ map ?line (dbDirs eh)"
    by (auto simp: verifyDir_def Let_def foldl_logDebug_log split: if_splits)
  from verify_scan_logsUnder [OF s] obtain L where
    L: "log w1 = log w @ L" "\<forall>e \<in> set L. lineUnder [] e"
    unfolding logsUnder_def by blast
  have d: "dbDirs eh = filter (\<lambda>d. d \<notin> set (enteredKeys env (enteredDirs [] tree))) (getDirs (store w))"
    using verify_scan_state(1) [OF HOL.refl s [unfolded r]] by simp
  have e: "emitted w w' = L @ map ?line (dbDirs eh)"
    using w' L(1) by (simp add: emitted_def)
  have m: "filter isDirectoryNotFound (map DirectoryNotFound ds) = map DirectoryNotFound ds" for ds
    by (induction ds) simp_all
  have "filter isDirectoryNotFound (reports (emitted w w')) =
          filter isDirectoryNotFound (reports L) @ map DirectoryNotFound (dbDirs eh)"
    unfolding e reports_append reports_missing_dirs filter_append m ..
  then show ?thesis
    using lineUnder_no_DirectoryNotFound [OF L(2)] d by simp
qed

text \<open>
  Claim C5, as stated, fails: with the recorded directories \<^verbatim>\<open>a\<close> and
  \<^verbatim>\<open>a/b\<close> both gone from the live tree, the nested recorded directory gets a
  report of its own.
\<close>

theorem missing_directories_counterexample:
  "reports (log (snd (verifyDir exampleEnv ''root'' emptyTree VerifyDirMismatchHandler nestedWorld)))
     = [DirectoryNotFound ''a'', DirectoryNotFound ''a/b'']"
  by (simp add: verifyDir_def emptyTree_def nestedWorld_def getDirs_def getFiles_def
        verifyHandler_def EventHandler_dirStart_def EventHandler_dirEnd_def exampleEnv_simps
        relativePathOf_def logDebug_def Let_def reports_Cons reports_Nil report_of_def)

lemma processFile_other_store:
  "processFile path lf chunkOp acc (w\<lparr>store := db\<rparr>)
     = apsnd (\<lambda>w'. w'\<lparr>store := db\<rparr>) (processFile path lf chunkOp acc w)"
  by (simp add: processFile_def openFile_def fclose_def logError_def
           split: sum.splits option.splits)

lemma fillFileRecord_other_store:
  "fillFileRecord env path lf (w\<lparr>store := db\<rparr>)
     = apsnd (\<lambda>w'. w'\<lparr>store := db\<rparr>) (fillFileRecord env path lf w)"
  by (simp add: fillFileRecord_def processFile_other_store split: prod.splits sum.splits)

lemma logDebug_other_store: "logDebug a (w\<lparr>store := db\<rparr>) = (logDebug a w)\<lparr>store := db\<rparr>"
  by (simp add: logDebug_def)

lemma logError_other_store: "logError a (w\<lparr>store := db\<rparr>) = (logError a w)\<lparr>store := db\<rparr>"
  by (simp add: logError_def)

lemma dirEndLoop_other_store:
  "dirEndLoop env relDir m (w\<lparr>store := db\<rparr>)
     = apsnd (\<lambda>w'. w'\<lparr>store := db\<rparr>) (dirEndLoop env relDir m w)"
  by (induction m arbitrary: w) (simp_all add: logError_other_store split: option.splits)

lemma EventHandler_dirEnd_other_store:
  "EventHandler_dirEnd env relDir eh (w\<lparr>store := db\<rparr>)
     = apsnd (\<lambda>w'. w'\<lparr>store := db\<rparr>) (EventHandler_dirEnd env relDir eh w)"
  by (simp add: EventHandler_dirEnd_def dirEndLoop_other_store
           split: list.splits prod.splits sum.splits)

lemma EventHandler_file_other_store:
  "EventHandler_file env rootDir relDir fileName lf eh (w\<lparr>store := db\<rparr>)
     = apsnd (\<lambda>w'. w'\<lparr>store := db\<rparr>) (EventHandler_file env rootDir relDir fileName lf eh w)"
proof (cases "fillFileRecord env (rootDir @ ''/'' @ fileName) lf
                (logDebug [Str (''Checking the file '' @ apos), Str fileName, Str (apos @ ''...'')] w)")
  case (Pair r2 w2)
  then show ?thesis
    by (cases r2)
       (simp_all add: EventHandler_file_def Let_def logDebug_other_store logError_other_store
          fillFileRecord_other_store split: option.splits list.splits)
qed

lemma verifyHandler_simps:
  "on_dirStart (verifyHandler env) = EventHandler_dirStart env"
  "on_file (verifyHandler env) = EventHandler_file env"
  "on_dirEnd (verifyHandler env) = EventHandler_dirEnd env"
  by (simp_all add: verifyHandler_def)

lemma opened_other_store: "opened rootDir (w\<lparr>store := db\<rparr>) = (opened rootDir w)\<lparr>store := db\<rparr>"
  by (simp add: logDebug_def)

lemma closed_other_store: "closed (w\<lparr>store := db\<rparr>) = (closed w)\<lparr>store := db\<rparr>"
  by simp

lemma verify_scan_other_store:
  shows "H = verifyHandler env \<Longrightarrow> scanFiles H rootDir relDir tree h w = (Inr h', w') \<Longrightarrow>
           \<forall>k \<in> set (enteredKeys env (enteredDirs relDir tree)). getFiles db k = getFiles (store w) k \<Longrightarrow>
           scanFiles H rootDir relDir tree h (w\<lparr>store := db\<rparr>) = (Inr h', w'\<lparr>store := db\<rparr>)"
    and "H = verifyHandler env \<Longrightarrow> scanEntries H rootDir relDir entries h w = (Inr h', w') \<Longrightarrow>
           \<forall>k \<in> set (enteredKeys env (enteredBelow relDir entries)). getFiles db k = getFiles (store w) k \<Longrightarrow>
           scanEntries H rootDir relDir entries h (w\<lparr>store := db\<rparr>) = (Inr h', w'\<lparr>store := db\<rparr>)"
proof (induction H rootDir relDir tree h w and H rootDir relDir entries h w
       arbitrary: h' w' and h' w' rule: scanFiles_scanEntries.induct)
  case (1 H rootDir relDir e h w)
  then show ?case
    by (auto simp: Let_def logDebug_other_store split: if_splits)
next
  case (2 H rootDir relDir entries h w)
  note H = "2.prems"(1) and agree = "2.prems"(3)
  from "2.prems"(2) show ?case
  proof (cases rule: scanFiles_OkE)
    case (finished h3 w3 h4 w4)
    from finished(1) obtain u where u: "convertToUtf8 env relDir = Some u"
      and w3: "w3 = opened rootDir w"
      and h3: "h3 = \<lparr>dbDirs = removeAll u (dbDirs h),
                    ctxs = getFiles (store (opened rootDir w)) u # ctxs h\<rparr>"
      by (auto simp: H verifyHandler_simps EventHandler_dirStart_def split: option.splits)
    have st3: "store w3 = store w"
      by (simp add: w3 logDebug_def)
    have "getFiles db u = getFiles (store w) u"
      using agree u by (simp add: enteredKeys_simps)
    then have ds': "on_dirStart H relDir h (opened rootDir (w\<lparr>store := db\<rparr>))
                     = (Inr h3, w3\<lparr>store := db\<rparr>)"
      unfolding opened_other_store
      using u by (simp add: H verifyHandler_simps EventHandler_dirStart_def h3 w3 logDebug_def)
    have "\<forall>k \<in> set (enteredKeys env (enteredBelow relDir entries)).
             getFiles db k = getFiles (store w3) k"
      using agree u st3 by (simp add: enteredKeys_simps)
    then have se': "scanEntries H rootDir relDir entries h3 (w3\<lparr>store := db\<rparr>)
                      = (Inr h4, w4\<lparr>store := db\<rparr>)"
      by (rule "2.IH" [OF HOL.refl HOL.refl finished(1) [symmetric] HOL.refl H finished(2)])
    have de': "on_dirEnd H relDir h4 (closed (w4\<lparr>store := db\<rparr>)) = (Inr h', w'\<lparr>store := db\<rparr>)"
      unfolding closed_other_store
      using finished(3) by (simp add: H verifyHandler_simps EventHandler_dirEnd_other_store)
    show ?thesis
      by (simp only: scanFiles.simps Let_def ds' se' de' prod.case sum.case)
  qed simp_all
next
  case (3 H rootDir relDir h w)
  then show ?case by simp
next
  case (4 H rootDir relDir d_name lf rest h w)
  note H = "4.prems"(1) and agree = "4.prems"(3)
  from "4.prems"(2) show ?case
  proof (cases rule: scanEntries_REG_E)
    case (fileOk h1 w1)
    have st1: "store w1 = store w"
      using fileOk(1) by (auto simp: H verifyHandler_simps dest: EventHandler_file_store)
    have f': "on_file H rootDir relDir d_name lf h (w\<lparr>store := db\<rparr>) = (Inr h1, w1\<lparr>store := db\<rparr>)"
      using fileOk(1) by (simp add: H verifyHandler_simps EventHandler_file_other_store)
    have "\<forall>k \<in> set (enteredKeys env (enteredBelow relDir rest)).
             getFiles db k = getFiles (store w1) k"
      using agree st1 by simp
    then have "scanEntries H rootDir relDir rest h1 (w1\<lparr>store := db\<rparr>) = (Inr h', w'\<lparr>store := db\<rparr>)"
      by (rule "4.IH" [OF fileOk(1) [symmetric] HOL.refl H fileOk(2)])
    then show ?thesis
      by (simp only: scanEntries.simps f' prod.case sum.case)
  qed simp
next
  case (5 H rootDir relDir name sub rest h w)
  note H = "5.prems"(1) and run = "5.prems"(2) and agree = "5.prems"(3)
  show ?case
  proof (cases "isDotOrDotDot name")
    case True
    then show ?thesis
      using run agree "5.IH"(1) [OF True H] by simp
  next
    case False
    from run False show ?thesis
    proof (cases rule: scanEntries_DIR_E)
      case (subOk h1 w1)
      have st1: "store w1 = store w"
        using subOk(1) by (auto simp: H dest: verify_scan_store)
      have "\<forall>k \<in> set (enteredKeys env (enteredDirs (relativePathOf relDir name) sub)).
               getFiles db k = getFiles (store w) k"
        using agree False by (simp add: enteredKeys_simps)
      then have s': "scanFiles H (rootDir @ ''/'' @ name) (relativePathOf relDir name) sub h
                       (w\<lparr>store := db\<rparr>) = (Inr h1, w1\<lparr>store := db\<rparr>)"
        by (rule "5.IH"(2) [OF False H subOk(1)])
      have "\<forall>k \<in> set (enteredKeys env (enteredBelow relDir rest)).
               getFiles db k = getFiles (store w1) k"
        using agree False st1 by (simp add: enteredKeys_simps)
      then have "scanEntries H rootDir relDir rest h1 (w1\<lparr>store := db\<rparr>)
                   = (Inr h', w'\<lparr>store := db\<rparr>)"
        by (rule "5.IH"(3) [OF False subOk(1) [symmetric] HOL.refl H subOk(2)])
      then show ?thesis
        using False by (simp only: scanEntries.simps s' prod.case sum.case if_False)
    qed simp
  qed
next
  case (6 H rootDir relDir d_name rest h w)
  from "6.prems"(2) have run: "scanEntries H rootDir relDir rest h (skipping d_name w) = (Inr h', w')"
    by (simp only: scanEntries.simps)
  have "\<forall>k \<in> set (enteredKeys env (enteredBelow relDir rest)).
           getFiles db k = getFiles (store (skipping d_name w)) k"
    using "6.prems"(3) by (simp add: logDebug_def)
  from "6.IH" [OF "6.prems"(1) run this] show ?case
    by (simp only: scanEntries.simps logDebug_other_store)
qed

lemma foldl_logDebug_other_store:
  "foldl (\<lambda>w' d. logDebug (f d) w') (w\<lparr>store := db\<rparr>) ds
     = (foldl (\<lambda>w' d. logDebug (f d) w') w ds)\<lparr>store := db\<rparr>"
  by (induction ds arbitrary: w) (simp_all add: logDebug_other_store)

lemma verifyDir_other_store:
  assumes run: "verifyDir env rootDir tree mh w = (Inr (), w')"
    and dirs: "getDirs db = getDirs (store w)"
    and agree: "\<forall>k \<in> set (enteredKeys env (enteredDirs [] tree)). getFiles db k = getFiles (store w) k"
  shows "verifyDir env rootDir tree mh (w\<lparr>store := db\<rparr>) = (Inr (), w'\<lparr>store := db\<rparr>)"
proof -
  let ?eh0 = "\<lparr>dbDirs = getDirs (store w), ctxs = []\<rparr>"
  obtain r w1 where s: "scanFiles (verifyHandler env) rootDir [] tree ?eh0 w = (r, w1)"
    by (cases "scanFiles (verifyHandler env) rootDir [] tree ?eh0 w")
  from run s obtain eh where r: "r = Inr eh"
    by (cases r) (simp_all add: verifyDir_def Let_def)
  have s': "scanFiles (verifyHandler env) rootDir [] tree ?eh0 (w\<lparr>store := db\<rparr>)
              = (Inr eh, w1\<lparr>store := db\<rparr>)"
    by (rule verify_scan_other_store(1) [OF HOL.refl s [unfolded r] agree])
  from run s r have e: "ctxs eh = []"
    and w': "w' = foldl (\<lambda>w' missingDir.
                       logDebug [Str (''DB dir not found in the file system: '' @ apos),
                                 Key missingDir, Str (apos @ ''...'')] w') w1 (dbDirs eh)"
    by (auto simp: verifyDir_def Let_def split: if_splits)
  show ?thesis
    unfolding verifyDir_def Let_def
    by (simp add: dirs s' e w' foldl_logDebug_other_store)
qed

text \<open>
  Claim C5, amended. After a verification that completes, the \<open>DirectoryNotFound\<close>
  reports are, in order, the recorded directories whose key no entered directory has:
  exactly one for each of them (the recorded directories are pairwise distinct), among
  them one for every recorded directory nested in a removed one, and none for a
  directory that was entered. The file records of directories that were not entered
  produce no report: a store with the same directories that agrees on the file records
  of the entered directories gives the same result and the same log.
\<close>

theorem missing_directories_reported:
  assumes "verifyDir env rootDir tree mh w = (Inr (), w')"
  shows "filter isDirectoryNotFound (reports (emitted w w')) =
           map DirectoryNotFound
             (filter (\<lambda>d. d \<notin> set (enteredKeys env (enteredDirs [] tree))) (getDirs (store w))) \<and>
         distinct (getDirs (store w)) \<and>
         (\<forall>db. getDirs db = getDirs (store w) \<and>
               (\<forall>k \<in> set (enteredKeys env (enteredDirs [] tree)).
                   getFiles db k = getFiles (store w) k) \<longrightarrow>
               verifyDir env rootDir tree mh (w\<lparr>store := db\<rparr>) = (Inr (), w'\<lparr>store := db\<rparr>))"
  using directory_not_found_reports [OF assms] verifyDir_other_store [OF assms]
  by (simp add: getDirs_def)

theorem missing_directories_reported_witness:
  "fst (verifyDir exampleEnv ''root'' emptyTree VerifyDirMismatchHandler nestedWorld) = Inr () \<and>
   filter isDirectoryNotFound (reports (emitted nestedWorld
       (snd (verifyDir exampleEnv ''root'' emptyTree VerifyDirMismatchHandler nestedWorld))))
     = [DirectoryNotFound ''a'', DirectoryNotFound ''a/b''] \<and>
   verifyDir exampleEnv ''root'' emptyTree VerifyDirMismatchHandler
       (nestedWorld\<lparr>store := nestedStoreWithoutFiles\<rparr>)
     = (Inr (), (snd (verifyDir exampleEnv ''root'' emptyTree VerifyDirMismatchHandler nestedWorld))
                  \<lparr>store := nestedStoreWithoutFiles\<rparr>)"
  using missing_directories_reported
          [of exampleEnv "''root''" emptyTree VerifyDirMismatchHandler nestedWorld
              "snd (verifyDir exampleEnv ''root'' emptyTree VerifyDirMismatchHandler nestedWorld)"]
  by (simp add: verifyDir_def emptyTree_def nestedWorld_def nestedStoreWithoutFiles_def
        getDirs_def getFiles_def dfm_insert_def
        verifyHandler_def EventHandler_dirStart_def EventHandler_dirEnd_def exampleEnv_simps
        relativePathOf_def logDebug_def Let_def emitted_def reports_Cons reports_Nil
        report_of_def enteredKeys_simps)

section \<open>The engine and the mismatch handler; the exit status\<close>

lemma replicate_16: "replicate 16 c = c # replicate 15 c"
  by (simp add: eval_nat_numeral)

lemma fillFileRecord_live_file_a:
  "fillFileRecord exampleEnv p live_file_a w = (Inr actual_file_a, w)"
  by (simp add: fillFileRecord_ok live_file_a_def actual_file_a_def exampleEnv_simps)

text \<open>
  Claim C3. \<^verbatim>\<open>EventHandler::file\<close> does not look at the kind: for an expected
  record of kind directory and a live regular file it reports size, timestamp and
  digest mismatches and no kind mismatch. \<^verbatim>\<open>checkFileMismatch\<close> of the mismatch
  handler, given the same two records, reports exactly one kind mismatch and nothing
  else; the engine does not call it.
\<close>

theorem file_visit_ignores_kind:
  "reports (emitted emptyWorld
      (snd (EventHandler_file exampleEnv ''root'' [] ''a'' live_file_a
              \<lparr>dbDirs = [], ctxs = [[(''a'', recorded_dir_a)]]\<rparr> emptyWorld)))
     = [SizeMismatch ''a'', TimestampMismatch ''a'', DigestMismatch ''a''] \<and>
   reports (emitted emptyWorld
      (snd (VerifyDirMismatchHandler_checkFileMismatch ''a'' recorded_dir_a actual_file_a
              emptyWorld)))
     = [KindMismatch ''a'']"
  by (simp add: EventHandler_file_def fillFileRecord_live_file_a Let_def
        VerifyDirMismatchHandler_checkFileMismatch_def
        replicate_16 exampleEnv_simps recorded_dir_a_def actual_file_a_def exampleDigest_def
        MD5_DIGEST_LENGTH_def relativePathOf_def logError_def logDebug_def emptyWorld_def
        reports_def emitted_def report_of_def)

lemma checkFileMismatch_kind:
  "type expected \<noteq> type actual \<Longrightarrow>
   reports (emitted w (snd (VerifyDirMismatchHandler_checkFileMismatch path expected actual w)))
     = [KindMismatch path]"
  by (simp add: VerifyDirMismatchHandler_checkFileMismatch_def logError_def
        reports_def emitted_def report_of_def)

lemma fillFileRecord_live_a_txt:
  "fillFileRecord exampleEnv p live_a_txt w =
     (Inr \<lparr>type = FileType_file, fileSize = 12, lastModifiedTS = 1000,
           md5Digest = exampleDigest ''hello world!''\<rparr>, w)"
  by (simp add: fillFileRecord_ok live_a_txt_def exampleEnv_simps)

lemma verifyDir_mismatchTree:
  "verifyDir exampleEnv ''root'' mismatchTree markingHandler mismatchWorld =
     (Inr (),
      mismatchWorld\<lparr>log :=
        [LogDebug [Str (''Scanning '' @ apos), Str ''root'', Str (apos @ ''...'')],
         LogDebug [Str (''Checking the file '' @ apos), Str ''new.txt'', Str (apos @ ''...'')],
         LogError [Str (''New file found in the file system: '' @ apos), Str ''new.txt'',
                   Str (apos @ ''!'')],
         LogDebug [Str (''Checking the file '' @ apos), Str ''a.txt'', Str (apos @ ''...'')],
         LogError [Str (''File size mismatch for the file '' @ apos), Str ''a.txt'',
                   Str (apos @ ''! DB size: ''), Num 10, Str '', file system size: '', Num 12,
                   Chr (CHR ''.'')],
         LogError [Str (''File MD5 digest mismatch for the file '' @ apos), Str ''a.txt'',
                   Str (apos @ ''! DB MD5: '' @ apos), Hex (exampleDigest ''0123456789''),
                   Str (apos @ '', file system MD5: '' @ apos),
                   Hex (exampleDigest ''hello world!''), Str (apos @ ''.'')],
         LogError [Str (''File not found in the file system: '' @ apos), Str ''missing.txt'',
                   Str (apos @ ''!'')],
         LogDebug [Str (''DB dir not found in the file system: '' @ apos), Key ''gone'',
                   Str (apos @ ''...'')]]\<rparr>)"
  by (simp add: verifyDir_def mismatchTree_def mismatchWorld_def getDirs_def getFiles_def
        dfm_insert_def verifyHandler_def EventHandler_dirStart_def EventHandler_dirEnd_def
        EventHandler_file_def fillFileRecord_live_file_a fillFileRecord_live_a_txt
        exampleEnv_simps recorded_a_txt_def exampleDigest_def MD5_DIGEST_LENGTH_def
        relativePathOf_def logError_def logDebug_def Let_def)

lemma verifyDir_handler_irrelevant:
  "verifyDir env rootDir tree h1 w = verifyDir env rootDir tree h2 w"
  by (simp add: verifyDir_def)

text \<open>
  Claim C4. On a tree with a new file, a changed file, a missing file and a missing
  directory, run with a mismatch handler that marks every call it receives, the log
  of \<^verbatim>\<open>verifyDir\<close> consists of the engine's own text lines
  (\<^verbatim>\<open>logError\<close>, and \<^verbatim>\<open>logDebug\<close> for the missing directory) and holds no
  mark: no mismatch reaches the handler.
\<close>

theorem verifyDir_never_calls_mismatchHandler:
  "log (snd (verifyDir exampleEnv ''root'' mismatchTree markingHandler mismatchWorld)) =
        [LogDebug [Str (''Scanning '' @ apos), Str ''root'', Str (apos @ ''...'')],
         LogDebug [Str (''Checking the file '' @ apos), Str ''new.txt'', Str (apos @ ''...'')],
         LogError [Str (''New file found in the file system: '' @ apos), Str ''new.txt'',
                   Str (apos @ ''!'')],
         LogDebug [Str (''Checking the file '' @ apos), Str ''a.txt'', Str (apos @ ''...'')],
         LogError [Str (''File size mismatch for the file '' @ apos), Str ''a.txt'',
                   Str (apos @ ''! DB size: ''), Num 10, Str '', file system size: '', Num 12,
                   Chr (CHR ''.'')],
         LogError [Str (''File MD5 digest mismatch for the file '' @ apos), Str ''a.txt'',
                   Str (apos @ ''! DB MD5: '' @ apos), Hex (exampleDigest ''0123456789''),
                   Str (apos @ '', file system MD5: '' @ apos),
                   Hex (exampleDigest ''hello world!''), Str (apos @ ''.'')],
         LogError [Str (''File not found in the file system: '' @ apos), Str ''missing.txt'',
                   Str (apos @ ''!'')],
         LogDebug [Str (''DB dir not found in the file system: '' @ apos), Key ''gone'',
                   Str (apos @ ''...'')]]"
  by (simp add: verifyDir_mismatchTree)

text \<open>
  Claim C9. When the options select create or verify, name a store, one or two
  positional arguments are given, the store opens and closes without error and the
  tool's walk returns normally, \<^verbatim>\<open>main\<close> returns status 0, in the world the walk
  left: nothing the walk reported enters the status.
\<close>

theorem main_exit_status_zero:
  assumes "parseOptions env opts tool_undefined False None w = (Inr (t, True, Some dbPath), w1)"
    and "t = tool_createDB \<or> t = tool_verifyDir"
    and "args \<noteq> []" and "length args \<le> 2"
    and "db_open_error env = None" and "db_close_error env = None"
    and "runTool env t (hd args) tree w1 = (Inr (), w2)"
  shows "main env opts args tree w = (Exit 0, w2)"
  using assms by (auto simp: main_def)

theorem main_exit_status_zero_witness:
  "main exampleEnv [(CHR ''t'', ''verify-dir'', Some 0), (CHR ''d'', ''mirror.db'', Some 3)]
        [''root''] mismatchTree mismatchWorld
     = (Exit 0, snd (verifyDir exampleEnv ''root'' mismatchTree VerifyDirMismatchHandler
                       mismatchWorld)) \<and>
   SizeMismatch ''a.txt'' \<in> set (reports (log (snd
       (verifyDir exampleEnv ''root'' mismatchTree VerifyDirMismatchHandler mismatchWorld))))"
  using main_exit_status_zero
          [of exampleEnv "[(CHR ''t'', ''verify-dir'', Some 0), (CHR ''d'', ''mirror.db'', Some 3)]"
              mismatchWorld tool_verifyDir "''mirror.db''" mismatchWorld "[''root'']"
              mismatchTree
              "snd (verifyDir exampleEnv ''root'' mismatchTree VerifyDirMismatchHandler
                      mismatchWorld)"]
        verifyDir_mismatchTree
  by (simp add: exampleEnv_simps runTool_def
        verifyDir_handler_irrelevant [where ?h1.0 = VerifyDirMismatchHandler and ?h2.0 = markingHandler]
        reports_def report_of_def)

section \<open>Directory accounting\<close>

lemma counts_append:
  "newFileFoundIn rel (A @ B) = newFileFoundIn rel A + newFileFoundIn rel B"
  "fileNotFoundIn rel (A @ B) = fileNotFoundIn rel A + fileNotFoundIn rel B"
  by (simp_all add: newFileFoundIn_def fileNotFoundIn_def reports_append)

lemma counts_Nil: "newFileFoundIn rel [] = 0" "fileNotFoundIn rel [] = 0"
  by (simp_all add: newFileFoundIn_def fileNotFoundIn_def reports_Nil)

lemma inDir_relativePathOf: "CHR ''/'' \<notin> set n \<Longrightarrow> inDir rel (relativePathOf rel n)"
  by (simp add: inDir_def relativePathOf_def)

lemma below_not_inDir:
  assumes b: "below (relativePathOf rel name) p" and n: "name \<noteq> []"
  shows "\<not> inDir rel p"
proof (cases "rel = []")
  case True
  with b n have "take (Suc (length name)) p = name @ ''/''"
    by (simp add: below_def relativePathOf_def)
  then have "CHR ''/'' \<in> set (take (Suc (length name)) p)" by simp
  then have "CHR ''/'' \<in> set p" by (rule in_set_takeD)
  then show ?thesis using True by (simp add: inDir_def)
next
  case False
  with b have t: "take (Suc (length (rel @ ''/'' @ name))) p = rel @ ''/'' @ name @ ''/''"
    by (simp add: below_def relativePathOf_def)
  have "drop (Suc (length rel)) (take (Suc (length (rel @ ''/'' @ name))) p) = name @ ''/''"
    unfolding t by simp
  then have "CHR ''/'' \<in> set (drop (Suc (length rel)) (take (Suc (length (rel @ ''/'' @ name))) p))"
    by simp
  then have "CHR ''/'' \<in> set (drop (Suc (length rel)) p)"
    unfolding drop_take by (rule in_set_takeD)
  then show ?thesis using False by (simp add: inDir_def)
qed

lemma lineUnder_counts:
  assumes "\<forall>e \<in> set L. lineUnder (relativePathOf rel name) e" and "name \<noteq> []"
  shows "newFileFoundIn rel L = 0 \<and> fileNotFoundIn rel L = 0"
  using assms(1)
proof (induction L)
  case Nil
  then show ?case by (simp add: counts_Nil)
next
  case (Cons e L)
  have r: "\<not> isNewFileFoundIn rel r \<and> \<not> isFileNotFoundIn rel r"
    if "reportUnder (relativePathOf rel name) r" for r
    using that below_not_inDir [OF _ assms(2)] by (cases r) auto
  from Cons.prems have "lineUnder (relativePathOf rel name) e" by simp
  then have "newFileFoundIn rel [e] = 0 \<and> fileNotFoundIn rel [e] = 0"
    using r by (auto simp: lineUnder_def newFileFoundIn_def fileNotFoundIn_def reports_Cons
                  reports_Nil split: option.splits)
  moreover have "newFileFoundIn rel L = 0 \<and> fileNotFoundIn rel L = 0"
    using Cons by simp
  ultimately show ?case
    using counts_append [of rel "[e]" L] by simp
qed

lemma dfm_erase_other:
  "k \<noteq> key \<Longrightarrow> k \<in> fst ` set (dfm_erase key m) \<longleftrightarrow> k \<in> fst ` set m"
  by (induction m) (auto simp: image_iff)

lemma file_counts:
  assumes run: "EventHandler_file env rootDir relDir fileName lf eh w = (Inr eh', w')"
    and top: "ctxs eh = topCtx # rest"
    and key: "convertToUtf8 env fileName = Some key"
    and name: "CHR ''/'' \<notin> set fileName"
  shows "\<exists>L. log w' = log w @ L \<and>
             newFileFoundIn relDir L = (if key \<in> fst ` set topCtx then 0 else 1) \<and>
             fileNotFoundIn relDir L = 0"
proof (cases "map_of topCtx key")
  case None
  then have k: "key \<notin> fst ` set topCtx"
    by (simp add: map_of_eq_None_iff)
  have "log w' = log w @
     [LogDebug [Str (''Checking the file '' @ apos), Str fileName, Str (apos @ ''...'')],
      LogError [Str (''New file found in the file system: '' @ apos),
                Str (relativePathOf relDir fileName), Str (apos @ ''!'')]]"
    using run top key None by (auto simp: EventHandler_file_def Let_def logError_def logDebug_def)
  moreover have "newFileFoundIn relDir
     [LogDebug [Str (''Checking the file '' @ apos), Str fileName, Str (apos @ ''...'')],
      LogError [Str (''New file found in the file system: '' @ apos),
                Str (relativePathOf relDir fileName), Str (apos @ ''!'')]] = 1"
    using inDir_relativePathOf [OF name]
    by (simp add: newFileFoundIn_def reports_Cons reports_Nil report_of_def)
  moreover have "fileNotFoundIn relDir
     [LogDebug [Str (''Checking the file '' @ apos), Str fileName, Str (apos @ ''...'')],
      LogError [Str (''New file found in the file system: '' @ apos),
                Str (relativePathOf relDir fileName), Str (apos @ ''!'')]] = 0"
    by (simp add: fileNotFoundIn_def reports_Cons reports_Nil report_of_def)
  ultimately show ?thesis using k by simp
next
  case (Some expected)
  then have k: "key \<in> fst ` set topCtx"
    by (metis map_of_eq_None_iff option.distinct(1))
  let ?w1 = "logDebug [Str (''Checking the file '' @ apos), Str fileName, Str (apos @ ''...'')] w"
  obtain r2 w2 where f: "fillFileRecord env (rootDir @ ''/'' @ fileName) lf ?w1 = (r2, w2)"
    by (cases "fillFileRecord env (rootDir @ ''/'' @ fileName) lf ?w1")
  from run top key Some f obtain fileRecord where r2: "r2 = Inr fileRecord"
    by (cases r2) (auto simp: EventHandler_file_def Let_def)
  have l2: "log w2 = log w @ [LogDebug [Str (''Checking the file '' @ apos), Str fileName,
                                         Str (apos @ ''...'')]]"
    using fillFileRecord_log [OF f] r2 by (simp add: logDebug_def)
  have "log w' = log w @ emitted w w' \<and> newFileFoundIn relDir (emitted w w') = 0 \<and>
        fileNotFoundIn relDir (emitted w w') = 0"
    using run top key Some f r2 l2
    by (auto simp: EventHandler_file_def Let_def logError_def emitted_def
          newFileFoundIn_def fileNotFoundIn_def reports_Cons reports_Nil report_of_def)
  then show ?thesis using k by auto
qed

lemma dirEndLoop_counts:
  assumes "dirEndLoop env relDir m w = (Inr (), w')"
    and "\<forall>k \<in> fst ` set m. \<forall>buf. convertFromUtf8 env k = Some buf \<longrightarrow> CHR ''/'' \<notin> set buf"
  shows "\<exists>L. log w' = log w @ L \<and> newFileFoundIn relDir L = 0 \<and>
             fileNotFoundIn relDir L = length m"
  using assms
proof (induction m arbitrary: w)
  case Nil
  then show ?case by (simp add: counts_Nil)
next
  case (Cons e es)
  from Cons.prems(1) obtain buf where buf: "convertFromUtf8 env (fst e) = Some buf"
    by (cases "convertFromUtf8 env (fst e)") auto
  let ?line = "LogError [Str (''File not found in the file system: '' @ apos),
                         Str (relativePathOf relDir buf), Str (apos @ ''!'')]"
  have slash: "CHR ''/'' \<notin> set buf"
    using Cons.prems(2) buf by simp
  have run: "dirEndLoop env relDir es (logError [Str (''File not found in the file system: '' @ apos),
                         Str (relativePathOf relDir buf), Str (apos @ ''!'')] w) = (Inr (), w')"
    using Cons.prems(1) buf by simp
  have "\<forall>k \<in> fst ` set es. \<forall>buf. convertFromUtf8 env k = Some buf \<longrightarrow> CHR ''/'' \<notin> set buf"
    using Cons.prems(2) by simp
  from Cons.IH [OF run this] obtain L where
    L: "log w' = log (logError [Str (''File not found in the file system: '' @ apos),
                         Str (relativePathOf relDir buf), Str (apos @ ''!'')] w) @ L"
       "newFileFoundIn relDir L = 0" "fileNotFoundIn relDir L = length es"
    by blast
  have one: "newFileFoundIn relDir [?line] = 0 \<and> fileNotFoundIn relDir [?line] = 1"
    using inDir_relativePathOf [OF slash]
    by (simp add: newFileFoundIn_def fileNotFoundIn_def reports_Cons reports_Nil report_of_def)
  have "log w' = log w @ ([?line] @ L)"
    using L(1) by (simp add: logError_def)
  moreover have "newFileFoundIn relDir ([?line] @ L) = 0"
    unfolding counts_append using one L(2) by simp
  moreover have "fileNotFoundIn relDir ([?line] @ L) = length (e # es)"
    unfolding counts_append using one L(3) by simp
  ultimately show ?case by blast
qed

lemma debug_counts: "newFileFoundIn rel [LogDebug [Str a, Str b, c]] = 0"
  "fileNotFoundIn rel [LogDebug [Str a, Str b, c]] = 0"
  by (simp_all add: newFileFoundIn_def fileNotFoundIn_def reports_Cons reports_Nil report_of_def)

lemma entries_counts:
  assumes "scanEntries (verifyHandler env) rootDir relDir entries eh w = (Inr eh', w')"
    and "ctxs eh = topCtx # rest"
    and "distinct (fileKeys env entries)"
    and "\<forall>n \<in> set (fileNames entries). CHR ''/'' \<notin> set n"
    and "\<forall>n \<in> set (dirNames entries). n \<noteq> []"
  shows "\<exists>L. log w' = log w @ L \<and>
             newFileFoundIn relDir L
               = length (filter (\<lambda>k. k \<notin> fst ` set topCtx) (fileKeys env entries)) \<and>
             fileNotFoundIn relDir L = 0"
  using assms
proof (induction entries arbitrary: eh w topCtx)
  case Nil
  then show ?case by (simp add: counts_Nil fileKeys_def)
next
  case (Cons entry es)
  show ?case
  proof (cases entry)
    case (DT_REG d_name lf)
    from Cons.prems(1) [unfolded DT_REG] show ?thesis
    proof (cases rule: scanEntries_REG_E)
      case (fileOk h1 w1)
      then have f: "EventHandler_file env rootDir relDir d_name lf eh w = (Inr h1, w1)"
        by (simp add: verifyHandler_simps)
      from EventHandler_file_Inr [OF f] Cons.prems(2) obtain key where
        key: "convertToUtf8 env d_name = Some key" and c1: "ctxs h1 = dfm_erase key topCtx # rest"
        by auto
      have keys: "fileKeys env (entry # es) = key # fileKeys env es"
        using key by (simp add: DT_REG fileKeys_def)
      have slash: "CHR ''/'' \<notin> set d_name"
        using Cons.prems(4) by (simp add: DT_REG)
      from file_counts [OF f Cons.prems(2) key slash] obtain L1 where
        L1: "log w1 = log w @ L1"
            "newFileFoundIn relDir L1 = (if key \<in> fst ` set topCtx then 0 else 1)"
            "fileNotFoundIn relDir L1 = 0"
        by blast
      have "\<exists>L. log w' = log w1 @ L \<and>
               newFileFoundIn relDir L
                 = length (filter (\<lambda>k. k \<notin> fst ` set (dfm_erase key topCtx)) (fileKeys env es)) \<and>
               fileNotFoundIn relDir L = 0"
        using Cons.prems(3,4,5) keys
        by (intro Cons.IH [OF fileOk(2) c1]) (simp_all add: DT_REG)
      then obtain L2 where
        L2: "log w' = log w1 @ L2"
            "newFileFoundIn relDir L2
               = length (filter (\<lambda>k. k \<notin> fst ` set (dfm_erase key topCtx)) (fileKeys env es))"
            "fileNotFoundIn relDir L2 = 0"
        by blast
      have "key \<notin> set (fileKeys env es)"
        using Cons.prems(3) keys by simp
      then have "filter (\<lambda>k. k \<notin> fst ` set (dfm_erase key topCtx)) (fileKeys env es)
                   = filter (\<lambda>k. k \<notin> fst ` set topCtx) (fileKeys env es)"
      proof (intro filter_cong HOL.refl)
        fix k assume "k \<in> set (fileKeys env es)"
        with \<open>key \<notin> set (fileKeys env es)\<close> have "k \<noteq> key" by auto
        from dfm_erase_other [OF this, of topCtx]
        show "(k \<notin> fst ` set (dfm_erase key topCtx)) = (k \<notin> fst ` set topCtx)"
          by blast
      qed
      then have n2: "newFileFoundIn relDir L2
                       = length (filter (\<lambda>k. k \<notin> fst ` set topCtx) (fileKeys env es))"
        using L2(2) by simp
      have "log w' = log w @ (L1 @ L2)"
        using L1(1) L2(1) by simp
      moreover have "newFileFoundIn relDir (L1 @ L2)
                       = length (filter (\<lambda>k. k \<notin> fst ` set topCtx) (fileKeys env (entry # es)))"
        unfolding counts_append keys using L1(2) n2 by simp
      moreover have "fileNotFoundIn relDir (L1 @ L2) = 0"
        unfolding counts_append using L1(3) L2(3) by simp
      ultimately show ?thesis by blast
    qed simp
  next
    case (DT_DIR name sub)
    show ?thesis
    proof (cases "isDotOrDotDot name")
      case True
      have "scanEntries (verifyHandler env) rootDir relDir es eh w = (Inr eh', w')"
        using Cons.prems(1) True by (simp add: DT_DIR)
      from Cons.IH [OF this Cons.prems(2)] Cons.prems(3,4,5) True show ?thesis
        by (simp add: DT_DIR fileKeys_def)
    next
      case False
      from Cons.prems(1) [unfolded DT_DIR] False show ?thesis
      proof (cases rule: scanEntries_DIR_E)
        case (subOk h1 w1)
        have c1: "ctxs h1 = topCtx # rest"
          using verify_scan_state(1) [OF HOL.refl subOk(1)] Cons.prems(2) by simp
        have nm: "name \<noteq> []"
          using Cons.prems(5) False by (simp add: DT_DIR)
        from verify_scan_logsUnder [OF subOk(1)] obtain L1 where
          L1: "log w1 = log w @ L1" "\<forall>e \<in> set L1. lineUnder (relativePathOf relDir name) e"
          unfolding logsUnder_def by blast
        note z1 = lineUnder_counts [OF L1(2) nm]
        have "\<exists>L. log w' = log w1 @ L \<and>
                 newFileFoundIn relDir L
                   = length (filter (\<lambda>k. k \<notin> fst ` set topCtx) (fileKeys env es)) \<and>
                 fileNotFoundIn relDir L = 0"
          using Cons.prems(3,4,5) False
          by (intro Cons.IH [OF subOk(2) c1]) (simp_all add: DT_DIR fileKeys_def)
        then obtain L2 where
          L2: "log w' = log w1 @ L2"
              "newFileFoundIn relDir L2
                 = length (filter (\<lambda>k. k \<notin> fst ` set topCtx) (fileKeys env es))"
              "fileNotFoundIn relDir L2 = 0"
          by blast
        have "log w' = log w @ (L1 @ L2)"
          using L1(1) L2(1) by simp
        moreover have "newFileFoundIn relDir (L1 @ L2)
                  = length (filter (\<lambda>k. k \<notin> fst ` set topCtx) (fileKeys env (entry # es)))"
          unfolding counts_append using z1 L2(2) by (simp add: DT_DIR fileKeys_def)
        moreover have "fileNotFoundIn relDir (L1 @ L2) = 0"
          unfolding counts_append using z1 L2(3) by simp
        ultimately show ?thesis by blast
      qed simp
    qed
  next
    case (DT_OTHER d_name)
    have run: "scanEntries (verifyHandler env) rootDir relDir es eh (skipping d_name w) = (Inr eh', w')"
      using Cons.prems(1) unfolding DT_OTHER by (simp only: scanEntries.simps)
    have "\<exists>L. log w' = log (skipping d_name w) @ L \<and>
             newFileFoundIn relDir L
               = length (filter (\<lambda>k. k \<notin> fst ` set topCtx) (fileKeys env es)) \<and>
             fileNotFoundIn relDir L = 0"
      using Cons.prems(3,4,5)
      by (intro Cons.IH [OF run Cons.prems(2)]) (simp_all add: DT_OTHER fileKeys_def)
    then obtain L2 where
      L2: "log w' = log (skipping d_name w) @ L2"
          "newFileFoundIn relDir L2
             = length (filter (\<lambda>k. k \<notin> fst ` set topCtx) (fileKeys env es))"
          "fileNotFoundIn relDir L2 = 0"
      by blast
    let ?line = "LogDebug [Str (''The file '' @ apos), Str d_name,
                  Str (apos @ '' is neither a directory or a regular file. Skipping it...'')]"
    have "log w' = log w @ ([?line] @ L2)"
      using L2(1) by (simp add: logDebug_def)
    moreover have "newFileFoundIn relDir ([?line] @ L2)
              = length (filter (\<lambda>k. k \<notin> fst ` set topCtx) (fileKeys env (entry # es)))"
      unfolding counts_append debug_counts using L2(2) by (simp add: DT_OTHER fileKeys_def)
    moreover have "fileNotFoundIn relDir ([?line] @ L2) = 0"
      unfolding counts_append debug_counts using L2(3) by simp
    ultimately show ?thesis by blast
  qed
qed

lemma dfm_insert_distinct: "distinct (map fst m) \<Longrightarrow> distinct (map fst (dfm_insert k v m))"
  by (auto simp: dfm_insert_def image_iff)

lemma getFiles_distinct: "distinct (map fst (getFiles db dirPath))"
proof -
  have "distinct (map fst m) \<Longrightarrow>
        distinct (map fst (fold (\<lambda>row m. if fst (fst row) = dirPath
                                   then dfm_insert (snd (fst row)) (snd row) m else m) rows m))"
    for rows :: "((string \<times> string) \<times> FileRecord) list" and m
    by (induction rows arbitrary: m) (simp_all add: dfm_insert_distinct)
  then show ?thesis by (simp add: getFiles_def)
qed

lemma dfm_erase_map_fst:
  "distinct (map fst m) \<Longrightarrow> map fst (dfm_erase k m) = filter (\<lambda>x. x \<noteq> k) (map fst m)"
  by (induction m) (auto simp: image_iff intro!: filter_True [symmetric])

lemma fold_dfm_erase_map_fst:
  "distinct (map fst m) \<Longrightarrow>
   map fst (fold dfm_erase ks m) = filter (\<lambda>x. x \<notin> set ks) (map fst m)"
proof (induction ks arbitrary: m)
  case Nil
  then show ?case by simp
next
  case (Cons k ks)
  have d: "distinct (map fst (dfm_erase k m))"
    using Cons.prems by (simp add: dfm_erase_map_fst)
  show ?case
    using Cons.IH [OF d] Cons.prems
    by (simp add: dfm_erase_map_fst conj_commute)
qed

lemma remaining_card:
  assumes "distinct (map fst m)"
  shows "length (fold dfm_erase ks m) = card (fst ` set m - set ks)"
proof -
  have "length (fold dfm_erase ks m) = length (map fst (fold dfm_erase ks m))" by simp
  also have "\<dots> = length (filter (\<lambda>x. x \<notin> set ks) (map fst m))"
    by (simp only: fold_dfm_erase_map_fst [OF assms])
  also have "\<dots> = card (set (filter (\<lambda>x. x \<notin> set ks) (map fst m)))"
    using assms by (intro distinct_card [symmetric] distinct_filter)
  also have "set (filter (\<lambda>x. x \<notin> set ks) (map fst m)) = fst ` set m - set ks"
    by auto
  finally show ?thesis .
qed

lemma accounting_arith:
  assumes "distinct ks" and "finite E"
  shows "length (filter (\<lambda>k. k \<notin> E) ks) + length (filter (\<lambda>k. k \<in> E) ks) + card (E - set ks)
           = card (set ks \<union> E)"
proof -
  have "length (filter (\<lambda>k. k \<notin> E) ks) + length (filter (\<lambda>k. k \<in> E) ks) = length ks"
    using sum_length_filter_compl [of "\<lambda>k. k \<in> E" ks] by simp
  also have "\<dots> = card (set ks)"
    using assms(1) by (simp add: distinct_card)
  finally have "length (filter (\<lambda>k. k \<notin> E) ks) + length (filter (\<lambda>k. k \<in> E) ks) + card (E - set ks)
                  = card (set ks) + card (E - set ks)"
    by simp
  also have "\<dots> = card (set ks \<union> (E - set ks))"
    using assms(2) by (intro card_Un_disjoint [symmetric]) auto
  also have "set ks \<union> (E - set ks) = set ks \<union> E" by auto
  finally show ?thesis .
qed

text \<open>
  Claim C2, amended. For a directory that the walker enters and leaves, the number of
  \<open>NewFileFound\<close> reports for it, plus the number of its live regular files found in
  the expectation, plus the number of \<open>FileNotFound\<close> reports for it, is the size of
  the union of the keys of its live regular files and of the expected children. The
  \<open>NewFileFound\<close> reports are as many as the live regular files whose key the
  expectation does not hold; the \<open>FileNotFound\<close> reports are as many as the expected
  children that are no live regular file's key: a visited file found in the
  expectation is erased whatever its fields, and each entry that remains yields
  exactly one report. The walks of the subdirectories in between leave the stack of
  expectations as it was. Assumed: the keys of the live regular files are pairwise
  distinct, file names and the names the expected keys convert to hold no slash, and
  subdirectory names are not empty.
\<close>

theorem directory_accounting:
  assumes run: "scanFiles (verifyHandler env) rootDir relDir (OpenDirOk entries) eh w = (Inr eh', w')"
    and u: "convertToUtf8 env relDir = Some u"
    and keys: "distinct (fileKeys env entries)"
    and names: "\<forall>n \<in> set (fileNames entries). CHR ''/'' \<notin> set n"
    and dirs: "\<forall>n \<in> set (dirNames entries). n \<noteq> []"
    and slashfree: "\<forall>k \<in> fst ` set (getFiles (store w) u).
                 \<forall>buf. convertFromUtf8 env k = Some buf \<longrightarrow> CHR ''/'' \<notin> set buf"
  shows "newFileFoundIn relDir (emitted w w')
           + matchedFiles env (getFiles (store w) u) entries
           + fileNotFoundIn relDir (emitted w w')
           = card (set (fileKeys env entries) \<union> fst ` set (getFiles (store w) u)) \<and>
         newFileFoundIn relDir (emitted w w')
           = length (filter (\<lambda>k. k \<notin> fst ` set (getFiles (store w) u)) (fileKeys env entries)) \<and>
         fileNotFoundIn relDir (emitted w w')
           = card (fst ` set (getFiles (store w) u) - set (fileKeys env entries)) \<and>
         ctxs eh' = ctxs eh"
proof -
  let ?exp = "getFiles (store w) u"
  let ?ks = "fileKeys env entries"
  from run show ?thesis
  proof (cases rule: scanFiles_OkE)
    case (finished h3 w3 h4 w4)
    from finished(1) u have w3: "w3 = opened rootDir w" and c3: "ctxs h3 = ?exp # ctxs eh"
      by (auto simp: verifyHandler_simps EventHandler_dirStart_def logDebug_def)
    have l3: "log w3 = log w @ [LogDebug [Str (''Scanning '' @ apos), Str rootDir,
                                          Str (apos @ ''...'')]]"
      by (simp add: w3 logDebug_def)
    from entries_counts [OF finished(2) c3 keys names dirs] obtain L2 where
      L2: "log w4 = log w3 @ L2"
          "newFileFoundIn relDir L2 = length (filter (\<lambda>k. k \<notin> fst ` set ?exp) ?ks)"
          "fileNotFoundIn relDir L2 = 0"
      by blast
    have c4: "ctxs h4 = fold dfm_erase ?ks ?exp # ctxs eh"
      using verify_scan_state(2) [OF HOL.refl finished(2) c3] by simp
    from finished(3) have de: "EventHandler_dirEnd env relDir h4 (closed w4) = (Inr eh', w')"
      by (simp add: verifyHandler_simps)
    from EventHandler_dirEnd_Inr [OF de] c4
    have loop: "dirEndLoop env relDir (fold dfm_erase ?ks ?exp) (closed w4) = (Inr (), w')"
      and c': "ctxs eh' = ctxs eh"
      by simp_all
    have sub: "fst ` set (fold dfm_erase ?ks ?exp) \<subseteq> fst ` set ?exp"
      using fold_dfm_erase_map_fst [OF getFiles_distinct, of ?ks "store w" u]
      by (metis (no_types, lifting) filter_is_subset list.set_map)
    have "\<forall>k \<in> fst ` set (fold dfm_erase ?ks ?exp).
            \<forall>buf. convertFromUtf8 env k = Some buf \<longrightarrow> CHR ''/'' \<notin> set buf"
      using slashfree sub by blast
    from dirEndLoop_counts [OF loop this] obtain L3 where
      L3: "log w' = log (closed w4) @ L3" "newFileFoundIn relDir L3 = 0"
          "fileNotFoundIn relDir L3 = length (fold dfm_erase ?ks ?exp)"
      by blast
    let ?scan = "LogDebug [Str (''Scanning '' @ apos), Str rootDir, Str (apos @ ''...'')]"
    have "log w' = log w @ ([?scan] @ L2 @ L3)"
      using l3 L2(1) L3(1) by simp
    then have e: "emitted w w' = [?scan] @ L2 @ L3"
      by (rule emitted_append)
    have n: "newFileFoundIn relDir (emitted w w')
               = length (filter (\<lambda>k. k \<notin> fst ` set ?exp) ?ks)"
      unfolding e counts_append debug_counts using L2(2) L3(2) by simp
    have f: "fileNotFoundIn relDir (emitted w w') = card (fst ` set ?exp - set ?ks)"
      unfolding e counts_append debug_counts
      using L2(3) L3(3) remaining_card [OF getFiles_distinct, of ?ks "store w" u] by simp
    have "length (filter (\<lambda>k. k \<notin> fst ` set ?exp) ?ks)
            + length (filter (\<lambda>k. k \<in> fst ` set ?exp) ?ks)
            + card (fst ` set ?exp - set ?ks) = card (set ?ks \<union> fst ` set ?exp)"
      by (rule accounting_arith [OF keys]) simp
    then show ?thesis
      using n f c' by (simp add: matchedFiles_def)
  qed simp_all
qed

text \<open>
  Claim C2, as stated, fails: a live subdirectory is a live child, but the walker
  descends into it instead of visiting it, and nothing is reported for it.
\<close>

theorem directory_accounting_counterexample:
  "fst (scanFiles (verifyHandler exampleEnv) ''root'' [] (OpenDirOk subdirEntries)
          \<lparr>dbDirs = [], ctxs = []\<rparr> emptyWorld) = Inr \<lparr>dbDirs = [], ctxs = []\<rparr> \<and>
   newFileFoundIn [] (emitted emptyWorld
       (snd (scanFiles (verifyHandler exampleEnv) ''root'' [] (OpenDirOk subdirEntries)
          \<lparr>dbDirs = [], ctxs = []\<rparr> emptyWorld)))
     + matchedFiles exampleEnv (getFiles (store emptyWorld) []) subdirEntries
     + fileNotFoundIn [] (emitted emptyWorld
       (snd (scanFiles (verifyHandler exampleEnv) ''root'' [] (OpenDirOk subdirEntries)
          \<lparr>dbDirs = [], ctxs = []\<rparr> emptyWorld))) = 0 \<and>
   card (set (liveChildren subdirEntries) \<union> fst ` set (getFiles (store emptyWorld) [])) = 1"
  by (simp add: subdirEntries_def emptyWorld_def getFiles_def verifyHandler_def
        EventHandler_dirStart_def EventHandler_dirEnd_def exampleEnv_simps relativePathOf_def
        logDebug_def Let_def emitted_def newFileFoundIn_def fileNotFoundIn_def matchedFiles_def
        fileKeys_def reports_Cons reports_Nil report_of_def)

lemma scan_mismatchEntries:
  "scanFiles (verifyHandler exampleEnv) ''root'' [] (OpenDirOk mismatchEntries)
          \<lparr>dbDirs = [], ctxs = []\<rparr> mismatchWorld =
     (Inr \<lparr>dbDirs = [], ctxs = []\<rparr>,
      mismatchWorld\<lparr>log :=
        [LogDebug [Str (''Scanning '' @ apos), Str ''root'', Str (apos @ ''...'')],
         LogDebug [Str (''Checking the file '' @ apos), Str ''new.txt'', Str (apos @ ''...'')],
         LogError [Str (''New file found in the file system: '' @ apos), Str ''new.txt'',
                   Str (apos @ ''!'')],
         LogDebug [Str (''Scanning '' @ apos), Str ''root/sub'', Str (apos @ ''...'')],
         LogDebug [Str (''Checking the file '' @ apos), Str ''inner.txt'', Str (apos @ ''...'')],
         LogError [Str (''New file found in the file system: '' @ apos), Str ''sub/inner.txt'',
                   Str (apos @ ''!'')],
         LogDebug [Str (''Checking the file '' @ apos), Str ''a.txt'', Str (apos @ ''...'')],
         LogError [Str (''File size mismatch for the file '' @ apos), Str ''a.txt'',
                   Str (apos @ ''! DB size: ''), Num 10, Str '', file system size: '', Num 12,
                   Chr (CHR ''.'')],
         LogError [Str (''File MD5 digest mismatch for the file '' @ apos), Str ''a.txt'',
                   Str (apos @ ''! DB MD5: '' @ apos), Hex (exampleDigest ''0123456789''),
                   Str (apos @ '', file system MD5: '' @ apos),
                   Hex (exampleDigest ''hello world!''), Str (apos @ ''.'')],
         LogError [Str (''File not found in the file system: '' @ apos), Str ''missing.txt'',
                   Str (apos @ ''!'')]]\<rparr>)"
  by (simp add: mismatchEntries_def mismatchWorld_def getFiles_def dfm_insert_def verifyHandler_def
        EventHandler_dirStart_def EventHandler_dirEnd_def EventHandler_file_def
        fillFileRecord_live_file_a fillFileRecord_live_a_txt
        exampleEnv_simps recorded_a_txt_def exampleDigest_def MD5_DIGEST_LENGTH_def
        relativePathOf_def logDebug_def logError_def Let_def)


lemma getFiles_mismatchWorld:
  "getFiles (store mismatchWorld) [] = [(''a.txt'', recorded_a_txt), (''missing.txt'', recorded_a_txt)]"
  by (simp add: mismatchWorld_def getFiles_def dfm_insert_def)

lemma fileKeys_mismatchEntries:
  "fileKeys exampleEnv mismatchEntries = [''new.txt'', ''a.txt'']"
  by (simp add: mismatchEntries_def fileKeys_def exampleEnv_simps List.map_filter_def)

theorem directory_accounting_witness:
  "fst (scanFiles (verifyHandler exampleEnv) ''root'' [] (OpenDirOk mismatchEntries)
          \<lparr>dbDirs = [], ctxs = []\<rparr> mismatchWorld) = Inr \<lparr>dbDirs = [], ctxs = []\<rparr> \<and>
   newFileFoundIn [] (emitted mismatchWorld
       (snd (scanFiles (verifyHandler exampleEnv) ''root'' [] (OpenDirOk mismatchEntries)
          \<lparr>dbDirs = [], ctxs = []\<rparr> mismatchWorld))) = 1 \<and>
   matchedFiles exampleEnv (getFiles (store mismatchWorld) []) mismatchEntries = 1 \<and>
   fileNotFoundIn [] (emitted mismatchWorld
       (snd (scanFiles (verifyHandler exampleEnv) ''root'' [] (OpenDirOk mismatchEntries)
          \<lparr>dbDirs = [], ctxs = []\<rparr> mismatchWorld))) = 1 \<and>
   card (set (fileKeys exampleEnv mismatchEntries)
           \<union> fst ` set (getFiles (store mismatchWorld) [])) = 3"
proof -
  let ?w' = "snd (scanFiles (verifyHandler exampleEnv) ''root'' [] (OpenDirOk mismatchEntries)
                    \<lparr>dbDirs = [], ctxs = []\<rparr> mismatchWorld)"
  have run: "scanFiles (verifyHandler exampleEnv) ''root'' [] (OpenDirOk mismatchEntries)
               \<lparr>dbDirs = [], ctxs = []\<rparr> mismatchWorld = (Inr \<lparr>dbDirs = [], ctxs = []\<rparr>, ?w')"
    by (simp only: scan_mismatchEntries snd_conv)
  have u: "convertToUtf8 exampleEnv [] = Some []"
    by (simp add: exampleEnv_simps)
  have keys: "distinct (fileKeys exampleEnv mismatchEntries)"
    by (simp add: fileKeys_mismatchEntries)
  have names: "\<forall>n \<in> set (fileNames mismatchEntries). CHR ''/'' \<notin> set n"
    by (simp add: mismatchEntries_def)
  have dirs: "\<forall>n \<in> set (dirNames mismatchEntries). n \<noteq> []"
    by (simp add: mismatchEntries_def)
  have slashfree: "\<forall>k \<in> fst ` set (getFiles (store mismatchWorld) []).
                 \<forall>buf. convertFromUtf8 exampleEnv k = Some buf \<longrightarrow> CHR ''/'' \<notin> set buf"
    by (auto simp: getFiles_mismatchWorld exampleEnv_simps)
  note acc = directory_accounting [OF run u keys names dirs slashfree]
  have m: "matchedFiles exampleEnv (getFiles (store mismatchWorld) []) mismatchEntries = 1"
    by (simp add: matchedFiles_def getFiles_mismatchWorld fileKeys_mismatchEntries)
  have n: "length (filter (\<lambda>k. k \<notin> fst ` set (getFiles (store mismatchWorld) []))
             (fileKeys exampleEnv mismatchEntries)) = 1"
    by (simp add: getFiles_mismatchWorld fileKeys_mismatchEntries)
  have c: "card (fst ` set (getFiles (store mismatchWorld) [])
                   - set (fileKeys exampleEnv mismatchEntries)) = 1"
    by (simp add: getFiles_mismatchWorld fileKeys_mismatchEntries)
  have N: "newFileFoundIn [] (emitted mismatchWorld ?w') = 1"
    by (rule trans [OF acc [THEN conjunct2, THEN conjunct1] n])
  have F: "fileNotFoundIn [] (emitted mismatchWorld ?w') = 1"
    by (rule trans [OF acc [THEN conjunct2, THEN conjunct2, THEN conjunct1] c])
  have C: "card (set (fileKeys exampleEnv mismatchEntries)
                  \<union> fst ` set (getFiles (store mismatchWorld) [])) = 3"
    using acc [THEN conjunct1] unfolding N m F by simp
  have R: "fst (scanFiles (verifyHandler exampleEnv) ''root'' [] (OpenDirOk mismatchEntries)
                  \<lparr>dbDirs = [], ctxs = []\<rparr> mismatchWorld) = Inr \<lparr>dbDirs = [], ctxs = []\<rparr>"
    by (simp only: scan_mismatchEntries fst_conv)
  show ?thesis
    by (intro conjI R N m F C)
qed

end
